theory Spec2Isabelle
  imports Main "HOL-Library.Log_Nat"
begin

section \<open>Python numbers\<close>

text \<open>
  The script computes with Python \<open>int\<close> (unbounded, modelled by \<open>int\<close>) and Python
  \<open>float\<close> (IEEE 754 binary64).  A finite float is modelled by the rational number it
  denotes; the two infinities and NaN are separate values.  The sign of a zero is not
  kept: the script never divides by a float and reads floats only through \<open>int()\<close>,
  so \<open>-0.0\<close> and \<open>0.0\<close> cannot be told apart by it.
\<close>

datatype pyfloat = Fin rat | PInf | NInf | NaN

text \<open>The exceptions the modelled code can meet; all are subclasses of \<open>Exception\<close>.\<close>

datatype pyerror = ZeroDivisionError | OverflowError | ValueError | Cv2Error

text \<open>Round to the nearest integer, ties to the even one (the IEEE default mode).\<close>

definition round_half_even :: "rat \<Rightarrow> int" where
  "round_half_even q =
     (let f = \<lfloor>q\<rfloor>; d = q - of_int f
      in if d < 1 / 2 then f
         else if 1 / 2 < d then f + 1
         else if even f then f else f + 1)"

text \<open>The binary exponent of a positive rational: \<open>2 powi ilog2 x \<le> x < 2 powi (ilog2 x + 1)\<close>.\<close>

definition ilog2 :: "rat \<Rightarrow> int" where
  "ilog2 x =
     (let (p, q) = quotient_of x; k = bitlen p - bitlen q
      in if x < 2 powi k then k - 1 else k)"

text \<open>
  \<open>fl64 x\<close> is the binary64 value nearest to the number \<open>x\<close>: a 53 bit significand
  \<open>m\<close> scaled by \<open>2 powi e\<close>, the exponent not below that of the subnormal numbers,
  and an infinity once the rounded magnitude reaches \<open>2 powi 1024\<close>.
\<close>

definition fl64 :: "rat \<Rightarrow> pyfloat" where
  "fl64 x =
     (if x = 0 then Fin 0
      else let e = max (ilog2 \<bar>x\<bar> - 52) (- 1074);
               m = round_half_even (x / 2 powi e)
           in if 971 < e \<or> (e = 971 \<and> 2 ^ 53 \<le> \<bar>m\<bar>)
              then (if 0 < x then PInf else NInf)
              else Fin (of_int m * 2 powi e))"

text \<open>
  \<open>a / b\<close> on two Python ints: the correctly rounded quotient, \<open>ZeroDivisionError\<close> for a
  zero divisor, \<open>OverflowError\<close> when the quotient is too large for a float.
\<close>

definition int_truediv :: "int \<Rightarrow> int \<Rightarrow> pyerror + pyfloat" where
  "int_truediv a b =
     (if b = 0 then Inl ZeroDivisionError
      else case fl64 (of_int a / of_int b) of
             Fin r \<Rightarrow> Inr (Fin r)
           | _ \<Rightarrow> Inl OverflowError)"

text \<open>
  The conversion of an int operand of a float operation: correctly rounded,
  \<open>OverflowError\<close> (int too large to convert to float) beyond the float range.
\<close>

definition float_of_int :: "int \<Rightarrow> pyerror + pyfloat" where
  "float_of_int n =
     (case fl64 (of_int n) of
        Fin r \<Rightarrow> Inr (Fin r)
      | _ \<Rightarrow> Inl OverflowError)"

fun float_neg :: "pyfloat \<Rightarrow> pyfloat" where
  "float_neg (Fin a) = Fin (- a)"
| "float_neg PInf = NInf"
| "float_neg NInf = PInf"
| "float_neg NaN = NaN"

text \<open>IEEE multiplication: it never raises, it overflows to an infinity.\<close>

fun float_mul :: "pyfloat \<Rightarrow> pyfloat \<Rightarrow> pyfloat" where
  "float_mul NaN y = NaN"
| "float_mul x NaN = NaN"
| "float_mul (Fin a) (Fin b) = fl64 (a * b)"
| "float_mul (Fin a) y = (if a = 0 then NaN else if 0 < a then y else float_neg y)"
| "float_mul x (Fin b) = (if b = 0 then NaN else if 0 < b then x else float_neg x)"
| "float_mul x y = (if x = y then PInf else NInf)"

text \<open>\<open>sx * n\<close> with a float \<open>sx\<close> and an int \<open>n\<close>: the int is converted first.\<close>

definition float_mul_int :: "pyfloat \<Rightarrow> int \<Rightarrow> pyerror + pyfloat" where
  "float_mul_int sx n =
     (case float_of_int n of
        Inl e \<Rightarrow> Inl e
      | Inr f \<Rightarrow> Inr (float_mul sx f))"

text \<open>
  \<open>int(x)\<close> on a float: truncation toward zero, \<open>OverflowError\<close> on an infinity,
  \<open>ValueError\<close> on NaN.
\<close>

definition trunc :: "rat \<Rightarrow> int" where
  "trunc r = (if 0 \<le> r then \<lfloor>r\<rfloor> else \<lceil>r\<rceil>)"

fun py_int :: "pyfloat \<Rightarrow> pyerror + int" where
  "py_int (Fin r) = Inr (trunc r)"
| "py_int NaN = Inl ValueError"
| "py_int PInf = Inl OverflowError"
| "py_int NInf = Inl OverflowError"

section \<open>Bounding boxes of the detection library\<close>

text \<open>
  The \<open>BBox\<close> of pycoral: four coordinates.  \<open>detect.get_objects\<close> delivers them as
  ints in the coordinate space of the model input; \<open>BBox.scale\<close> delivers floats.
\<close>

record 'a BBox =
  xmin :: 'a
  ymin :: 'a
  xmax :: 'a
  ymax :: 'a

text \<open>
  \<open>bbox.scale(sx, sy)\<close>, as \<open>disegna_risultati\<close> calls it (line 150): every x coordinate
  times \<open>sx\<close>, every y coordinate times \<open>sy\<close>, evaluated in the order
  xmin, ymin, xmax, ymax.
\<close>

definition BBox_scale :: "int BBox \<Rightarrow> pyfloat \<Rightarrow> pyfloat \<Rightarrow> pyerror + pyfloat BBox" where
  "BBox_scale b sx sy =
     (case float_mul_int sx (xmin b) of Inl e \<Rightarrow> Inl e | Inr x0 \<Rightarrow>
      case float_mul_int sy (ymin b) of Inl e \<Rightarrow> Inl e | Inr y0 \<Rightarrow>
      case float_mul_int sx (xmax b) of Inl e \<Rightarrow> Inl e | Inr x1 \<Rightarrow>
      case float_mul_int sy (ymax b) of Inl e \<Rightarrow> Inl e | Inr y1 \<Rightarrow>
      Inr \<lparr>xmin = x0, ymin = y0, xmax = x1, ymax = y1\<rparr>)"

section \<open>The scale factors of \<open>main\<close>\<close>

text \<open>
  Lines 393 and 394 of \<open>main\<close>: \<open>scale_x = width_nativo / input_size[0]\<close> and
  \<open>scale_y = height_nativo / input_size[1]\<close>, both operands ints.
\<close>

definition scale_x :: "int \<Rightarrow> int \<times> int \<Rightarrow> pyerror + pyfloat" where
  "scale_x width_nativo input_size = int_truediv width_nativo (fst input_size)"

definition scale_y :: "int \<Rightarrow> int \<times> int \<Rightarrow> pyerror + pyfloat" where
  "scale_y height_nativo input_size = int_truediv height_nativo (snd input_size)"

section \<open>The label table\<close>

text \<open>
  \<open>carica_etichette\<close>: the argument \<open>file\<close> is what \<open>readlines\<close> delivers, or \<open>None\<close>
  when opening or reading the file raises; the loop stores
  \<open>etichette[i] = line.strip()\<close> for every enumerated line.  \<open>str.strip\<close> is a method of
  Python's text type, which removes the Unicode whitespace at both ends of the decoded
  line; it is a parameter of the model, any function on label texts.
\<close>

fun enumerate_from :: "int \<Rightarrow> 'a list \<Rightarrow> (int \<times> 'a) list" where
  "enumerate_from i [] = []"
| "enumerate_from i (x # xs) = (i, x) # enumerate_from (i + 1) xs"

definition carica_etichette ::
  "(string \<Rightarrow> string) \<Rightarrow> string list option \<Rightarrow> (int \<rightharpoonup> string) option" where
  "carica_etichette strip file =
     (case file of
        None \<Rightarrow> None
      | Some lines \<Rightarrow>
          Some (foldl (\<lambda>etichette (i, line). etichette(i \<mapsto> strip line))
                  Map.empty (enumerate_from 0 lines)))"

text \<open>\<open>d.get(k, default)\<close> of a Python dict.\<close>

definition dict_get :: "('k \<rightharpoonup> 'v) \<Rightarrow> 'k \<Rightarrow> 'v \<Rightarrow> 'v" where
  "dict_get d k dflt = (case d k of None \<Rightarrow> dflt | Some v \<Rightarrow> v)"

section \<open>Frames and drawing\<close>

text \<open>
  A detection of pycoral (\<open>Object\<close>): class index, score and box.
\<close>

record Oggetto =
  obj_id :: int
  score :: pyfloat
  bbox :: "int BBox"

text \<open>
  The texts the script draws.  The f-strings are kept as the values they are formatted
  from: \<open>Etichetta_testo nome_classe confidenza\<close> stands for
  \<open>f"{nome_classe}: {confidenza}%"\<close>, the others for the five lines of the status block.
\<close>

datatype testo =
    Etichetta_testo string pyfloat
  | Testo_webcam int int
  | Testo_tpu int int
  | Testo_fps pyfloat
  | Testo_oggetti nat
  | Testo_soglia pyfloat bool

type_synonym colore = "nat \<times> nat \<times> nat"

text \<open>
  The two drawing calls, with the arguments that vary in the script: corners, colour and
  thickness of \<open>cv2.rectangle\<close>; text, origin and colour of \<open>cv2.putText\<close> (font, scale
  \<open>0.6\<close> and thickness \<open>2\<close> are the same at every call).
\<close>

datatype disegno =
    Rectangle "int \<times> int" "int \<times> int" colore int
  | PutText testo "int \<times> int" colore

text \<open>
  A frame: \<open>shape[0]\<close> (rows, the height), \<open>shape[1]\<close> (columns, the width), and what
  has been drawn on it so far, oldest first.  Drawing mutates the array in place; the
  model passes the frame on.
\<close>

record frame =
  shape0 :: int
  shape1 :: int
  disegni :: "disegno list"

text \<open>
  OpenCV is outside the repository.  Whether a drawing call raises is a parameter of the
  model: \<open>cv frame d = Some e\<close> when the call \<open>d\<close> on \<open>frame\<close> raises \<open>e\<close>, \<open>None\<close>
  when it draws.
\<close>

type_synonym cv2 = "frame \<Rightarrow> disegno \<Rightarrow> pyerror option"

definition cv2_draw :: "cv2 \<Rightarrow> frame \<Rightarrow> disegno \<Rightarrow> frame \<times> pyerror option" where
  "cv2_draw cv frame d =
     (case cv frame d of
        None \<Rightarrow> (frame\<lparr>disegni := disegni frame @ [d]\<rparr>, None)
      | Some e \<Rightarrow> (frame, Some e))"

text \<open>
  \<open>round(x, 1)\<close>: the float nearest to the exact value of \<open>x\<close> rounded to one decimal,
  ties to even; an infinity or NaN is returned as it is.
\<close>

fun py_round1 :: "pyfloat \<Rightarrow> pyfloat" where
  "py_round1 (Fin r) = fl64 (of_int (round_half_even (r * 10)) / 10)"
| "py_round1 x = x"

section \<open>\<open>disegna_risultati\<close>\<close>

text \<open>
  The body of the \<open>for\<close> loop (lines 144 to 184) on one detection.  The result is the
  frame as the body leaves it and the exception it raised, if any; \<open>continue\<close> leaves
  the frame unchanged with no exception.
\<close>

definition disegna_oggetto ::
  "cv2 \<Rightarrow> (int \<rightharpoonup> string) \<Rightarrow> pyfloat \<Rightarrow> pyfloat \<Rightarrow> frame \<Rightarrow> Oggetto \<Rightarrow> frame \<times> pyerror option" where
  "disegna_oggetto cv etichette sx sy frame_nativo obj =
     (case BBox_scale (bbox obj) sx sy of Inl e \<Rightarrow> (frame_nativo, Some e) | Inr bbox_scalata \<Rightarrow>
      case py_int (xmin bbox_scalata) of Inl e \<Rightarrow> (frame_nativo, Some e) | Inr x0 \<Rightarrow>
      case py_int (ymin bbox_scalata) of Inl e \<Rightarrow> (frame_nativo, Some e) | Inr y0 \<Rightarrow>
      case py_int (xmax bbox_scalata) of Inl e \<Rightarrow> (frame_nativo, Some e) | Inr x1 \<Rightarrow>
      case py_int (ymax bbox_scalata) of Inl e \<Rightarrow> (frame_nativo, Some e) | Inr y1 \<Rightarrow>
      if x0 < 0 \<or> y0 < 0 \<or> x1 > shape1 frame_nativo \<or> y1 > shape0 frame_nativo
      then (frame_nativo, None)
      else
        let nome_classe = dict_get etichette (obj_id obj) ''Sconosciuto'' in
        case float_mul_int (score obj) 100 of Inl e \<Rightarrow> (frame_nativo, Some e) | Inr c \<Rightarrow>
        let confidenza = py_round1 c;
            etichetta_testo = Etichetta_testo nome_classe confidenza
        in case cv2_draw cv frame_nativo (Rectangle (x0, y0) (x1, y1) (0, 255, 0) 2) of
             (frame1, Some e) \<Rightarrow> (frame1, Some e)
           | (frame1, None) \<Rightarrow>
               let y_testo = y0 - 10;
                   y_testo = (if y_testo < 10 then y0 + 20 else y_testo)
               in cv2_draw cv frame1 (PutText etichetta_testo (x0, y_testo) (0, 255, 0)))"

text \<open>The \<open>for\<close> loop: an exception leaves the loop at once.\<close>

fun ciclo_oggetti ::
  "cv2 \<Rightarrow> (int \<rightharpoonup> string) \<Rightarrow> pyfloat \<Rightarrow> pyfloat \<Rightarrow> frame \<Rightarrow> Oggetto list \<Rightarrow> frame \<times> pyerror option" where
  "ciclo_oggetti cv etichette sx sy frame_nativo [] = (frame_nativo, None)"
| "ciclo_oggetti cv etichette sx sy frame_nativo (obj # oggetti) =
     (case disegna_oggetto cv etichette sx sy frame_nativo obj of
        (frame1, Some e) \<Rightarrow> (frame1, Some e)
      | (frame1, None) \<Rightarrow> ciclo_oggetti cv etichette sx sy frame1 oggetti)"

text \<open>
  The function: the loop inside \<open>try\<close>, the handler of \<open>Exception\<close> that prints the
  error, and \<open>return frame_nativo\<close>.  The second component is what the handler
  printed.
\<close>

definition disegna_risultati ::
  "cv2 \<Rightarrow> frame \<Rightarrow> Oggetto list \<Rightarrow> (int \<rightharpoonup> string) \<Rightarrow> pyfloat \<Rightarrow> pyfloat \<Rightarrow> frame \<times> pyerror list" where
  "disegna_risultati cv frame_nativo oggetti etichette sx sy =
     (case ciclo_oggetti cv etichette sx sy frame_nativo oggetti of
        (frame1, None) \<Rightarrow> (frame1, [])
      | (frame1, Some e) \<Rightarrow> (frame1, [e]))"

section \<open>\<open>trova_risoluzioni_supportate\<close>\<close>

text \<open>
  The capture device is outside the repository.  Its state is of any type \<open>'d\<close>;
  \<open>cap_get\<close> reads a property (a finite C double), \<open>cap_set\<close> requests a value and
  gives the state the device is in afterwards, whatever it made of the request.
\<close>

datatype cap_prop = CAP_PROP_FRAME_WIDTH | CAP_PROP_FRAME_HEIGHT

definition risoluzioni_da_testare :: "(int \<times> int) list" where
  "risoluzioni_da_testare = [(640, 480), (800, 600), (1024, 768), (1280, 720), (1920, 1080)]"

text \<open>The loop over the candidates, from a device state and the list found so far.\<close>

fun testa_risoluzioni ::
  "('d \<Rightarrow> cap_prop \<Rightarrow> rat) \<Rightarrow> ('d \<Rightarrow> cap_prop \<Rightarrow> int \<Rightarrow> 'd) \<Rightarrow> int \<times> int \<Rightarrow>
   (int \<times> int) list \<Rightarrow> 'd \<Rightarrow> (int \<times> int) list \<Rightarrow> 'd \<times> (int \<times> int) list" where
  "testa_risoluzioni cap_get cap_set default_res [] cap risoluzioni_supportate =
     (cap, risoluzioni_supportate)"
| "testa_risoluzioni cap_get cap_set default_res ((w, h) # rest) cap risoluzioni_supportate =
     (if (w, h) = default_res
      then testa_risoluzioni cap_get cap_set default_res rest cap risoluzioni_supportate
      else
        let cap1 = cap_set cap CAP_PROP_FRAME_WIDTH w;
            cap2 = cap_set cap1 CAP_PROP_FRAME_HEIGHT h;
            actual_w = trunc (cap_get cap2 CAP_PROP_FRAME_WIDTH);
            actual_h = trunc (cap_get cap2 CAP_PROP_FRAME_HEIGHT)
        in if actual_w = w \<and> actual_h = h \<and> (w, h) \<notin> set risoluzioni_supportate
           then testa_risoluzioni cap_get cap_set default_res rest cap2
                  (risoluzioni_supportate @ [(w, h)])
           else testa_risoluzioni cap_get cap_set default_res rest cap2 risoluzioni_supportate)"

text \<open>The function returns the list; the model also returns the device state it leaves.\<close>

definition trova_risoluzioni_supportate ::
  "('d \<Rightarrow> cap_prop \<Rightarrow> rat) \<Rightarrow> ('d \<Rightarrow> cap_prop \<Rightarrow> int \<Rightarrow> 'd) \<Rightarrow> 'd \<Rightarrow> (int \<times> int) list \<times> 'd" where
  "trova_risoluzioni_supportate cap_get cap_set cap =
     (let default_w = trunc (cap_get cap CAP_PROP_FRAME_WIDTH);
          default_h = trunc (cap_get cap CAP_PROP_FRAME_HEIGHT);
          default_res = (default_w, default_h);
          (cap1, risoluzioni_supportate) =
             testa_risoluzioni cap_get cap_set default_res risoluzioni_da_testare cap [default_res];
          cap2 = cap_set cap1 CAP_PROP_FRAME_WIDTH default_w;
          cap3 = cap_set cap2 CAP_PROP_FRAME_HEIGHT default_h
      in (risoluzioni_supportate, cap3))"

text \<open>
  The requests the loop makes and what the device answered: for every candidate that
  is not the default, in order, the pair of the requested resolution and the
  resolution read back after the two \<open>cap.set\<close> calls.
\<close>

fun echi ::
  "('d \<Rightarrow> cap_prop \<Rightarrow> rat) \<Rightarrow> ('d \<Rightarrow> cap_prop \<Rightarrow> int \<Rightarrow> 'd) \<Rightarrow> int \<times> int \<Rightarrow>
   (int \<times> int) list \<Rightarrow> 'd \<Rightarrow> ((int \<times> int) \<times> (int \<times> int)) list" where
  "echi cap_get cap_set default_res [] cap = []"
| "echi cap_get cap_set default_res ((w, h) # rest) cap =
     (if (w, h) = default_res then echi cap_get cap_set default_res rest cap
      else
        let cap1 = cap_set cap CAP_PROP_FRAME_WIDTH w;
            cap2 = cap_set cap1 CAP_PROP_FRAME_HEIGHT h;
            actual_w = trunc (cap_get cap2 CAP_PROP_FRAME_WIDTH);
            actual_h = trunc (cap_get cap2 CAP_PROP_FRAME_HEIGHT)
        in ((w, h), (actual_w, actual_h)) # echi cap_get cap_set default_res rest cap2)"

section \<open>One iteration of the loop of \<open>main\<close>\<close>















section \<open>Example values\<close>

text \<open>An OpenCV whose drawing calls all succeed.\<close>

definition cv2_ok :: cv2 where
  "cv2_ok frame d = None"

definition etichette_esempio :: "int \<rightharpoonup> string" where
  "etichette_esempio = [0 \<mapsto> ''person'', 1 \<mapsto> ''bicycle'']"

text \<open>A fresh native frame of 1280 by 720 and one of 160 by 120.\<close>

definition frame_720p :: frame where
  "frame_720p = \<lparr>shape0 = 720, shape1 = 1280, disegni = []\<rparr>"

definition frame_120p :: frame where
  "frame_120p = \<lparr>shape0 = 120, shape1 = 160, disegni = []\<rparr>"

text \<open>The factors of 1280 by 720 over 300 by 300, as floats.\<close>

definition sx_720p :: pyfloat where
  "sx_720p = Fin (4803839602528529 / 1125899906842624)"

definition sy_720p :: pyfloat where
  "sy_720p = Fin (5404319552844595 / 2251799813685248)"

definition oggetto :: "int \<Rightarrow> int \<Rightarrow> int \<Rightarrow> int \<Rightarrow> int \<Rightarrow> Oggetto" where
  "oggetto i x0 y0 x1 y1 =
     \<lparr>obj_id = i, score = Fin (3 / 4), bbox = \<lparr>xmin = x0, ymin = y0, xmax = x1, ymax = y1\<rparr>\<rparr>"






text \<open>A native frame of 640 by 480.\<close>

definition frame_480p :: frame where
  "frame_480p = \<lparr>shape0 = 480, shape1 = 640, disegni = []\<rparr>"

text \<open>
  Two capture devices whose state is the current resolution.  Both report it as it
  is.  The first applies every request.  The second has a table of modes and applies
  a request only if the resolution it leads to is in the table.
\<close>

definition cam_get :: "int \<times> int \<Rightarrow> cap_prop \<Rightarrow> rat" where
  "cam_get c p =
     (case p of CAP_PROP_FRAME_WIDTH \<Rightarrow> of_int (fst c) | CAP_PROP_FRAME_HEIGHT \<Rightarrow> of_int (snd c))"

definition cam_set_any :: "int \<times> int \<Rightarrow> cap_prop \<Rightarrow> int \<Rightarrow> int \<times> int" where
  "cam_set_any c p v =
     (case p of CAP_PROP_FRAME_WIDTH \<Rightarrow> (v, snd c) | CAP_PROP_FRAME_HEIGHT \<Rightarrow> (fst c, v))"

definition cam_set_modes :: "(int \<times> int) list \<Rightarrow> int \<times> int \<Rightarrow> cap_prop \<Rightarrow> int \<Rightarrow> int \<times> int" where
  "cam_set_modes modes c p v =
     (if cam_set_any c p v \<in> set modes then cam_set_any c p v else c)"

section \<open>Facts about the float model\<close>

lemma round_half_even_bound: "\<bar>of_int (round_half_even q) - q\<bar> \<le> 1 / 2"
proof -
  define f where "f = \<lfloor>q\<rfloor>"
  have f1: "of_int f \<le> q" and f2: "q < of_int f + 1"
    unfolding f_def by linarith+
  have r: "round_half_even q =
      (if q - of_int f < 1 / 2 then f else if 1 / 2 < q - of_int f then f + 1
       else if even f then f else f + 1)"
    by (simp add: round_half_even_def Let_def f_def)
  show ?thesis
  proof (cases "q - of_int f < 1 / 2")
    case True
    with f1 r show ?thesis by simp
  next
    case False
    with f2 have "\<bar>of_int (f + 1) - q\<bar> \<le> 1 / 2" by simp
    moreover from False f1 have "1 / 2 < q - of_int f \<or> q - of_int f = 1 / 2" by linarith
    then have "\<bar>of_int f - q\<bar> \<le> 1 / 2 \<or> round_half_even q = f + 1"
      using r False by auto
    ultimately show ?thesis
      using r False by (auto simp del: of_int_add)
  qed
qed

lemma round_half_even_of_int: "round_half_even (of_int n) = n"
  by (simp add: round_half_even_def)

lemma bitlen_powi:
  assumes "0 < (p::int)"
  shows "(2::rat) powi (bitlen p - 1) \<le> of_int p" and "of_int p < (2::rat) powi bitlen p"
proof -
  from assms have b: "1 \<le> bitlen p"
    using bitlen_eq_zero_iff [of p] bitlen_nonneg [of p] by linarith
  from bitlen_bounds [OF assms]
  have lo: "2 ^ nat (bitlen p - 1) \<le> p" and hi: "p < 2 ^ nat (bitlen p)"
    by simp_all
  have "(of_int (2 ^ nat (bitlen p - 1)) :: rat) \<le> of_int p"
    using lo by (simp only: of_int_le_iff)
  then show "(2::rat) powi (bitlen p - 1) \<le> of_int p"
    using b by (simp add: power_int_def)
  have "(of_int p :: rat) < of_int (2 ^ nat (bitlen p))"
    using hi by (simp only: of_int_less_iff)
  then show "of_int p < (2::rat) powi bitlen p"
    using b by (simp add: power_int_def)
qed

lemma ilog2_bounds:
  assumes "0 < x"
  shows "2 powi ilog2 x \<le> x" and "x < 2 powi (ilog2 x + 1)"
proof -
  obtain p q where pq: "quotient_of x = (p, q)"
    by (cases "quotient_of x")
  then have q: "0 < q" and x: "x = of_int p / of_int q"
    using quotient_of_denom_pos quotient_of_div by blast+
  with assms have p: "0 < p"
    by (simp add: zero_less_divide_iff)
  define k where "k = bitlen p - bitlen q"
  have il: "ilog2 x = (if x < 2 powi k then k - 1 else k)"
    by (simp add: ilog2_def pq k_def Let_def)
  have qr: "(0::rat) < of_int q" using q by simp
  have lo: "(2::rat) powi (k - 1) < x"
  proof -
    have "(2::rat) powi (k - 1) * of_int q < 2 powi (k - 1) * 2 powi bitlen q"
      using bitlen_powi(2) [OF q] by simp
    also have "\<dots> = 2 powi (bitlen p - 1)"
      by (simp add: k_def flip: power_int_add)
    also have "\<dots> \<le> of_int p"
      by (rule bitlen_powi(1) [OF p])
    finally show ?thesis
      using qr by (simp add: x pos_less_divide_eq)
  qed
  have hi: "x < (2::rat) powi (k + 1)"
  proof -
    have "of_int p < (2::rat) powi bitlen p"
      by (rule bitlen_powi(2) [OF p])
    also have "\<dots> = 2 powi (k + 1) * 2 powi (bitlen q - 1)"
      by (simp add: k_def flip: power_int_add)
    also have "\<dots> \<le> 2 powi (k + 1) * of_int q"
      using bitlen_powi(1) [OF q] by simp
    finally show ?thesis
      using qr by (simp add: x pos_divide_less_eq)
  qed
  show "2 powi ilog2 x \<le> x"
    using lo by (simp add: il)
  show "x < 2 powi (ilog2 x + 1)"
    using hi by (simp add: il)
qed

lemma powi_mono2: "a \<le> b \<Longrightarrow> (2::rat) powi a \<le> 2 powi b"
  by (rule power_int_increasing) simp_all

lemma powi_less_imp: "(2::rat) powi a < 2 powi b \<Longrightarrow> a < b"
  using powi_mono2 [of b a] by (cases "a < b") auto

text \<open>
  In the range of the normal numbers \<open>fl64\<close> returns a finite float whose relative
  error is at most \<open>2 powi (- 53)\<close>, half a unit in the last place.
\<close>

lemma fl64_normal:
  assumes lo: "2 powi (- 1022) \<le> x" and hi: "x < 2 powi 1023"
  shows "\<exists>r. fl64 x = Fin r \<and> \<bar>r - x\<bar> \<le> x / 2 ^ 53"
proof -
  have xpos: "0 < x"
    using lo by (rule less_le_trans [rotated]) simp
  define k where "k = ilog2 x"
  have k1: "2 powi k \<le> x" and k2: "x < 2 powi (k + 1)"
    using ilog2_bounds [OF xpos] by (simp_all add: k_def)
  have "(2::rat) powi (- 1022) < 2 powi (k + 1)"
    using lo k2 by (rule le_less_trans)
  then have klo: "- 1022 \<le> k"
    using powi_less_imp by fastforce
  have "(2::rat) powi k < 2 powi 1023"
    using k1 hi by (rule le_less_trans)
  then have khi: "k < 1023"
    by (rule powi_less_imp)
  define e where "e = k - 52"
  define m where "m = round_half_even (x / 2 powi e)"
  have epos: "(0::rat) < 2 powi e" by simp
  have e_eq: "max (ilog2 x - 52) (- 1074) = e"
    using klo by (simp add: e_def k_def)
  have e_small: "e < 971"
    using khi by (simp add: e_def)
  have err: "\<bar>of_int m - x / 2 powi e\<bar> \<le> 1 / 2"
    unfolding m_def by (rule round_half_even_bound)
  have "of_int m * 2 powi e - x = (of_int m - x / 2 powi e) * 2 powi e"
    by (simp add: left_diff_distrib)
  then have "\<bar>of_int m * 2 powi e - x\<bar> = \<bar>of_int m - x / 2 powi e\<bar> * 2 powi e"
    by (simp only: abs_mult) simp
  also have "\<dots> \<le> 1 / 2 * 2 powi e"
    using err epos by (simp del: times_divide_eq_left)
  also have "\<dots> = 2 powi k / 2 ^ 53"
    by (simp add: e_def power_int_diff)
  also have "\<dots> \<le> x / 2 ^ 53"
    using k1 by (simp add: divide_right_mono)
  finally have bound: "\<bar>of_int m * 2 powi e - x\<bar> \<le> x / 2 ^ 53" .
  have "fl64 x = Fin (of_int m * 2 powi e)"
    using xpos e_small by (simp add: fl64_def e_eq Let_def m_def)
  with bound show ?thesis by blast
qed

lemma fl64_of_int_exact:
  assumes "\<bar>n\<bar> < 2 ^ 53"
  shows "fl64 (of_int n) = Fin (of_int n)"
proof (cases "n = 0")
  case True
  then show ?thesis by (simp add: fl64_def)
next
  case False
  define x :: rat where "x = \<bar>of_int n\<bar>"
  have xpos: "0 < x" using False by (simp add: x_def)
  define k where "k = ilog2 x"
  have k1: "2 powi k \<le> x" and k2: "x < 2 powi (k + 1)"
    using ilog2_bounds [OF xpos] by (simp_all add: k_def)
  have "x < 2 powi 53"
    using assms unfolding x_def
    by (metis of_int_abs of_int_less_iff of_int_numeral of_int_power power_int_numeral)
  with k1 have "(2::rat) powi k < 2 powi 53" by (rule le_less_trans)
  then have khi: "k < 53" by (rule powi_less_imp)
  have "1 \<le> x" using False unfolding x_def
    by (metis of_int_abs of_int_1_le_iff abs_ge_zero zero_less_abs_iff linorder_not_less zless_imp_add1_zle add_0)
  then have "(2::rat) powi 0 < 2 powi (k + 1)" using k2 by simp
  then have klo: "0 \<le> k" using powi_less_imp by fastforce
  define d where "d = nat (52 - k)"
  have e_eq: "max (k - 52) (- 1074) = - int d"
    using klo khi by (simp add: d_def)
  have dv: "of_int n / (2::rat) powi (- int d) = of_int (n * 2 ^ d)"
    by (simp add: power_int_minus divide_inverse)
  have bk: "of_int (n * 2 ^ d) * (2::rat) powi (- int d) = of_int n"
    by (simp add: power_int_minus)
  show ?thesis
    using False
    by (simp add: fl64_def x_def [symmetric] k_def [symmetric] e_eq Let_def dv
        round_half_even_of_int bk del: of_int_mult of_int_power)
qed


lemma quotient_in_range:
  fixes a b :: int
  assumes "0 < a" "a < 2 ^ 1022" "0 < b" "b < 2 ^ 1022"
  shows "(2::rat) powi (- 1022) \<le> of_int a / of_int b"
    and "(of_int a / of_int b :: rat) < 2 powi 1023"
proof -
  define A :: rat where "A = of_int a"
  define B :: rat where "B = of_int b"
  define P :: rat where "P = 2 powi 1022"
  have P: "0 < P" by (simp only: P_def power_int_numeral zero_less_power zero_less_numeral)
  have P_int: "(of_int (2 ^ 1022) :: rat) = P"
    by (simp only: P_def power_int_numeral of_int_power of_int_numeral)
  have bnd: "1 \<le> (of_int c :: rat) \<and> (of_int c :: rat) < P"
    if "0 < c" "c < 2 ^ 1022" for c :: int
  proof -
    have "(of_int c :: rat) < of_int (2 ^ 1022)"
      using that(2) by (simp only: of_int_less_iff)
    moreover have "1 \<le> (of_int c :: rat)"
      using that(1) by simp
    ultimately show ?thesis by (simp only: P_int simp_thms)
  qed
  have A: "1 \<le> A" "A < P"
    using bnd [OF assms(1,2)] by (simp_all add: A_def)
  have B: "1 \<le> B" "B < P"
    using bnd [OF assms(3,4)] by (simp_all add: B_def)
  have "1 / P \<le> 1 / B"
    using B P by (simp add: frac_le)
  also have "\<dots> \<le> A / B"
    using A B by (simp add: divide_right_mono)
  finally have lo: "1 / P \<le> A / B" .
  have "A / B \<le> A / 1"
    using A B by (intro divide_left_mono) simp_all
  also have "\<dots> < P" using A by simp
  also have "\<dots> \<le> 2 powi 1023"
    unfolding P_def by (rule powi_mono2) simp
  finally have hi: "A / B < 2 powi 1023" .
  have "(2::rat) powi (- 1022) = 1 / P"
    unfolding P_def by (rule power_int_minus_divide)
  with lo show "(2::rat) powi (- 1022) \<le> of_int a / of_int b"
    by (simp only: A_def B_def)
  from hi show "(of_int a / of_int b :: rat) < 2 powi 1023"
    by (simp only: A_def B_def)
qed

lemma int_truediv_normal:
  fixes a b :: int
  assumes "0 < a" "a < 2 ^ 1022" "0 < b" "b < 2 ^ 1022"
  shows "\<exists>r. int_truediv a b = Inr (Fin r) \<and> 0 < r
           \<and> \<bar>r - of_int a / of_int b\<bar> \<le> of_int a / of_int b / 2 ^ 53"
proof -
  define q :: rat where "q = of_int a / of_int b"
  have qpos: "0 < q" using assms by (simp add: q_def)
  from fl64_normal [OF quotient_in_range [OF assms]]
  obtain r where r: "fl64 q = Fin r" "\<bar>r - q\<bar> \<le> q / 2 ^ 53"
    unfolding q_def by blast
  have "q / 2 ^ 53 < q" using qpos by simp
  with r(2) have "0 < r" by linarith
  moreover have "int_truediv a b = Inr (Fin r)"
    using assms(3) r(1) by (simp add: int_truediv_def q_def)
  ultimately show ?thesis using r(2) unfolding q_def by blast
qed

lemma float_mul_int_exact:
  assumes "\<bar>n\<bar> < 2 ^ 53"
  shows "float_mul_int (Fin s) n = Inr (fl64 (s * of_int n))"
  using fl64_of_int_exact [OF assms] by (simp add: float_mul_int_def float_of_int_def)

section \<open>Facts about the round trip\<close>

lemma of_int_range:
  fixes c :: int
  assumes "0 < c" "c < 2 ^ 1022"
  shows "1 \<le> (of_int c :: rat)" and "(of_int c :: rat) < 2 powi 1022"
proof -
  have "(of_int c :: rat) < of_int (2 ^ 1022)"
    using assms(2) by (simp only: of_int_less_iff)
  then show "(of_int c :: rat) < 2 powi 1022"
    by (simp only: power_int_numeral of_int_power of_int_numeral)
  show "1 \<le> (of_int c :: rat)"
    using assms(1) by simp
qed

lemma powi_1023: "(2::rat) powi 1023 = 2 * 2 powi 1022"
proof -
  have e: "(1023::int) = 1022 + 1" by simp
  show ?thesis by (subst e, rule power_int_add_1') simp
qed

lemma int_53_1022: "(m::int) < 2 ^ 53 \<Longrightarrow> m < 2 ^ 1022"
proof -
  assume "m < 2 ^ 53"
  also have "(2::int) ^ 53 \<le> 2 ^ 1022"
    by (rule power_increasing) simp_all
  finally show ?thesis .
qed

lemma round_trip_axis:
  fixes n m :: int
  assumes "0 < n" "n < 2 ^ 1022" "0 < m" "m < 2 ^ 53"
  shows "\<exists>s x. int_truediv n m = Inr (Fin s) \<and> float_mul_int (Fin s) m = Inr (Fin x) \<and>
           \<bar>x - of_int n\<bar> \<le> of_int n * (2 / 2 ^ 53 + 1 / 2 ^ 106)"
proof -
  define N :: rat where "N = of_int n"
  define M :: rat where "M = of_int m"
  define u :: rat where "u = 1 / 2 ^ 53"
  have u: "0 < u" "u \<le> 1 / 2" by (simp_all add: u_def)
  have N: "1 \<le> N" "N < 2 powi 1022"
    using of_int_range [OF assms(1,2)] by (simp_all add: N_def)
  have M: "0 < M" using assms(3) by (simp add: M_def)
  from int_truediv_normal [OF assms(1,2,3) int_53_1022 [OF assms(4)]]
  obtain s where s: "int_truediv n m = Inr (Fin s)" "\<bar>s - N / M\<bar> \<le> N / M * u"
    unfolding N_def M_def u_def by auto
  define p where "p = s * M"
  have "p - N = (s - N / M) * M" using M by (simp add: p_def left_diff_distrib)
  then have "\<bar>p - N\<bar> = \<bar>s - N / M\<bar> * M" using M by (simp add: abs_mult)
  also have "\<dots> \<le> N / M * u * M"
    using s(2) M by (intro mult_right_mono) simp_all
  also have "\<dots> = N * u" using M by simp
  finally have pN: "\<bar>p - N\<bar> \<le> N * u" .
  have Nu: "N * u \<le> N * (1 / 2)"
    using u N by (intro mult_left_mono) simp_all
  have plo: "1 / 2 \<le> p" using pN Nu N by linarith
  have phi: "p < 2 * 2 powi 1022" using pN Nu N by linarith
  have "(2::rat) powi (- 1022) \<le> 2 powi (- 1)" by (rule powi_mono2) simp
  also have "\<dots> = 1 / 2" by (simp add: power_int_minus)
  also note plo
  finally have r1: "2 powi (- 1022) \<le> p" .
  have r2: "p < 2 powi 1023" using phi by (simp only: powi_1023)
  from fl64_normal [OF r1 r2] obtain x where x: "fl64 p = Fin x" "\<bar>x - p\<bar> \<le> p * u"
    unfolding u_def by auto
  have "\<bar>m\<bar> < 2 ^ 53" using assms(3,4) by simp
  from float_mul_int_exact [OF this, of s]
  have mul: "float_mul_int (Fin s) m = Inr (Fin x)"
    using x(1) by (simp add: p_def M_def)
  have "p \<le> N + N * u" using pN by linarith
  then have "p * u \<le> (N + N * u) * u"
    using u by (intro mult_right_mono) simp_all
  with x(2) have "\<bar>x - p\<bar> \<le> (N + N * u) * u" by linarith
  with pN have "\<bar>x - N\<bar> \<le> (N + N * u) * u + N * u" by linarith
  also have "\<dots> = N * (2 * u + u * u)" by (simp add: algebra_simps)
  also have "2 * u + u * u = 2 / 2 ^ 53 + 1 / 2 ^ 106"
    by (simp add: u_def)
  finally show ?thesis
    using s(1) mul unfolding N_def by blast
qed

lemma float_mul_int_zero: "float_mul_int (Fin s) 0 = Inr (Fin 0)"
  by (simp add: float_mul_int_def float_of_int_def fl64_def)

section \<open>The bounds check of \<open>disegna_risultati\<close>\<close>

lemma float_mul_int_100: "float_mul_int s 100 = Inr (float_mul s (Fin 100))"
proof -
  have "fl64 (of_int 100) = Fin (of_int 100)"
    by (rule fl64_of_int_exact) simp
  then show ?thesis by (simp add: float_mul_int_def float_of_int_def)
qed

lemma trunc_neg_iff: "trunc a < 0 \<longleftrightarrow> a \<le> - 1"
  unfolding trunc_def by (auto simp: ceiling_less_iff floor_less_iff) 

lemma trunc_gt_iff: "0 \<le> w \<Longrightarrow> w < trunc c \<longleftrightarrow> of_int w + 1 \<le> c"
  unfolding trunc_def by (auto simp: less_floor_iff less_ceiling_iff)

lemma trunc_small_neg: "- 1 < a \<Longrightarrow> a < 0 \<Longrightarrow> trunc a = 0"
  unfolding trunc_def by (auto simp: ceiling_eq_iff)

lemma trunc_just_above: "0 \<le> w \<Longrightarrow> of_int w < c \<Longrightarrow> c < of_int w + 1 \<Longrightarrow> trunc c = w"
  unfolding trunc_def by (auto simp: floor_eq_iff)

lemma disegna_oggetto_remapped:
  assumes "BBox_scale (bbox obj) sx sy = Inr bs"
    and "py_int (xmin bs) = Inr x0" "py_int (ymin bs) = Inr y0"
    and "py_int (xmax bs) = Inr x1" "py_int (ymax bs) = Inr y1"
    and "\<And>g d. cv g d = None"
  shows "disegna_oggetto cv etichette sx sy f obj =
     (if x0 < 0 \<or> y0 < 0 \<or> shape1 f < x1 \<or> shape0 f < y1 then (f, None)
      else (f\<lparr>disegni := disegni f @
               [Rectangle (x0, y0) (x1, y1) (0, 255, 0) 2,
                PutText (Etichetta_testo (dict_get etichette (obj_id obj) ''Sconosciuto'')
                           (py_round1 (float_mul (score obj) (Fin 100))))
                  (x0, if y0 - 10 < 10 then y0 + 20 else y0 - 10) (0, 255, 0)]\<rparr>, None))"
  using assms by (simp add: disegna_oggetto_def float_mul_int_100 cv2_draw_def Let_def)


text \<open>
  Claim C2, as amended.  The check of line 162 reads the four remapped coordinates
  after \<open>int()\<close> has truncated them toward zero.  For a rectangle whose truncated
  corners are in order (\<open>xmin \<le> xmax\<close> and \<open>ymin \<le> ymax\<close>) the detection is skipped
  exactly when one of the four truncated coordinates is negative or greater than the
  native width (for x) or height (for y); a coordinate equal to the width or height is
  in bounds.  A detection that is not skipped is drawn, rectangle and label, when the
  drawing calls do not raise.
\<close>

theorem bounds_check_on_truncated_coordinates:
  assumes "BBox_scale (bbox obj) sx sy = Inr bs"
    and "py_int (xmin bs) = Inr x0" "py_int (ymin bs) = Inr y0"
    and "py_int (xmax bs) = Inr x1" "py_int (ymax bs) = Inr y1"
    and "x0 \<le> x1" "y0 \<le> y1"
    and "\<And>g d. cv g d = None"
  shows "disegna_oggetto cv etichette sx sy f obj =
     (if x0 < 0 \<or> shape1 f < x0 \<or> x1 < 0 \<or> shape1 f < x1 \<or>
         y0 < 0 \<or> shape0 f < y0 \<or> y1 < 0 \<or> shape0 f < y1
      then (f, None)
      else (f\<lparr>disegni := disegni f @
               [Rectangle (x0, y0) (x1, y1) (0, 255, 0) 2,
                PutText (Etichetta_testo (dict_get etichette (obj_id obj) ''Sconosciuto'')
                           (py_round1 (float_mul (score obj) (Fin 100))))
                  (x0, if y0 - 10 < 10 then y0 + 20 else y0 - 10) (0, 255, 0)]\<rparr>, None))"
proof -
  have "(x0 < 0 \<or> shape1 f < x0 \<or> x1 < 0 \<or> shape1 f < x1 \<or>
         y0 < 0 \<or> shape0 f < y0 \<or> y1 < 0 \<or> shape0 f < y1) =
        (x0 < 0 \<or> y0 < 0 \<or> shape1 f < x1 \<or> shape0 f < y1)"
    using assms(6,7) by auto
  then show ?thesis
    by (simp only: disegna_oggetto_remapped [OF assms(1-5) assms(8)])
qed

text \<open>
  The full model input of 300 by 300 lands on \<open>(0, 0)\<close> to \<open>(1280, 720)\<close>, the
  bounds themselves, and is drawn; one model pixel more to the right is skipped.
\<close>

theorem bounds_check_on_truncated_coordinates_witness:
  "disegna_oggetto cv2_ok etichette_esempio sx_720p sy_720p frame_720p (oggetto 0 0 0 300 300) =
     (frame_720p\<lparr>disegni :=
        [Rectangle (0, 0) (1280, 720) (0, 255, 0) 2,
         PutText (Etichetta_testo ''person'' (Fin 75)) (0, 20) (0, 255, 0)]\<rparr>, None) \<and>
   disegna_oggetto cv2_ok etichette_esempio sx_720p sy_720p frame_720p (oggetto 0 0 0 301 300) =
     (frame_720p, None)"
proof -
  have full: "BBox_scale (bbox (oggetto 0 0 0 300 300)) sx_720p sy_720p =
      Inr \<lparr>xmin = Fin 0, ymin = Fin 0, xmax = Fin 1280, ymax = Fin 720\<rparr>"
    by code_simp
  have over: "BBox_scale (bbox (oggetto 0 0 0 301 300)) sx_720p sy_720p =
      Inr \<lparr>xmin = Fin 0, ymin = Fin 0, xmax = Fin (5648264532660497 / 4398046511104),
           ymax = Fin 720\<rparr>"
    by code_simp
  have t: "trunc 0 = 0" "trunc 1280 = 1280" "trunc 720 = 720"
      "trunc (5648264532660497 / 4398046511104) = 1284"
    by (simp_all add: trunc_def floor_eq_iff)
  have lab: "Etichetta_testo (dict_get etichette_esempio (obj_id (oggetto 0 0 0 300 300)) ''Sconosciuto'')
        (py_round1 (float_mul (score (oggetto 0 0 0 300 300)) (Fin 100))) =
      Etichetta_testo ''person'' (Fin 75)"
    by code_simp
  have "disegna_oggetto cv2_ok etichette_esempio sx_720p sy_720p frame_720p (oggetto 0 0 0 300 300) =
     (frame_720p\<lparr>disegni :=
        [Rectangle (0, 0) (1280, 720) (0, 255, 0) 2,
         PutText (Etichetta_testo ''person'' (Fin 75)) (0, 20) (0, 255, 0)]\<rparr>, None)"
    using bounds_check_on_truncated_coordinates [OF full, of 0 0 1280 720 cv2_ok
        etichette_esempio frame_720p]
    by (simp add: t cv2_ok_def lab) (simp add: frame_720p_def)
  moreover
  have "disegna_oggetto cv2_ok etichette_esempio sx_720p sy_720p frame_720p (oggetto 0 0 0 301 300) =
     (frame_720p, None)"
    using bounds_check_on_truncated_coordinates [OF over, of 0 0 1284 720 cv2_ok
        etichette_esempio frame_720p]
    by (simp add: t cv2_ok_def) (simp add: frame_720p_def)
  ultimately show ?thesis by simp
qed

text \<open>
  A remapped coordinate beyond the frame does not always drop the detection.  In a
  frame of 160 by 120 under a model input of 320 by 320 the box \<open>(0, 0)\<close> to
  \<open>(321, 100)\<close> remaps to \<open>xmax = 160.5\<close>, strictly greater than the width 160, and is
  drawn, as \<open>(0, 0)\<close> to \<open>(160, 37)\<close>.
\<close>

theorem fractional_overshoot_is_rendered:
  "BBox_scale (bbox (oggetto 0 0 0 321 100)) (Fin (1 / 2)) (Fin (3 / 8)) =
     Inr \<lparr>xmin = Fin 0, ymin = Fin 0, xmax = Fin (321 / 2), ymax = Fin (75 / 2)\<rparr> \<and>
   of_int (shape1 frame_120p) < (321 / 2 :: rat) \<and>
   disegna_oggetto cv2_ok etichette_esempio (Fin (1 / 2)) (Fin (3 / 8)) frame_120p
       (oggetto 0 0 0 321 100) =
     (frame_120p\<lparr>disegni :=
        [Rectangle (0, 0) (160, 37) (0, 255, 0) 2,
         PutText (Etichetta_testo ''person'' (Fin 75)) (0, 20) (0, 255, 0)]\<rparr>, None)"
  by code_simp

text \<open>
  Claim C9.  The bounds check sees truncated coordinates.  In terms of the remapped
  floats \<open>a, b, c, d\<close> (\<open>xmin, ymin, xmax, ymax\<close>) the detection is skipped exactly
  when \<open>a \<le> - 1\<close>, \<open>b \<le> - 1\<close>, \<open>c \<ge> width + 1\<close> or \<open>d \<ge> height + 1\<close>.  So a
  coordinate strictly between \<open>- 1\<close> and \<open>0\<close> becomes \<open>0\<close> and an \<open>xmax\<close> (\<open>ymax\<close>)
  strictly between the width (height) and one more becomes the bound, and the
  detection is kept although the float lies outside the frame.
\<close>

theorem bounds_check_truncates_toward_zero:
  assumes "BBox_scale (bbox obj) sx sy =
      Inr \<lparr>xmin = Fin a, ymin = Fin b, xmax = Fin c, ymax = Fin d\<rparr>"
    and "\<And>g e. cv g e = None"
    and "0 \<le> shape0 f" "0 \<le> shape1 f"
  shows "disegna_oggetto cv etichette sx sy f obj =
     (if a \<le> - 1 \<or> b \<le> - 1 \<or> of_int (shape1 f) + 1 \<le> c \<or> of_int (shape0 f) + 1 \<le> d
      then (f, None)
      else (f\<lparr>disegni := disegni f @
               [Rectangle (trunc a, trunc b) (trunc c, trunc d) (0, 255, 0) 2,
                PutText (Etichetta_testo (dict_get etichette (obj_id obj) ''Sconosciuto'')
                           (py_round1 (float_mul (score obj) (Fin 100))))
                  (trunc a, if trunc b - 10 < 10 then trunc b + 20 else trunc b - 10)
                  (0, 255, 0)]\<rparr>, None)) \<and>
     (- 1 < a \<and> a < 0 \<longrightarrow> trunc a = 0) \<and>
     (- 1 < b \<and> b < 0 \<longrightarrow> trunc b = 0) \<and>
     (of_int (shape1 f) < c \<and> c < of_int (shape1 f) + 1 \<longrightarrow> trunc c = shape1 f) \<and>
     (of_int (shape0 f) < d \<and> d < of_int (shape0 f) + 1 \<longrightarrow> trunc d = shape0 f)"
proof -
  have "disegna_oggetto cv etichette sx sy f obj =
     (if trunc a < 0 \<or> trunc b < 0 \<or> shape1 f < trunc c \<or> shape0 f < trunc d then (f, None)
      else (f\<lparr>disegni := disegni f @
               [Rectangle (trunc a, trunc b) (trunc c, trunc d) (0, 255, 0) 2,
                PutText (Etichetta_testo (dict_get etichette (obj_id obj) ''Sconosciuto'')
                           (py_round1 (float_mul (score obj) (Fin 100))))
                  (trunc a, if trunc b - 10 < 10 then trunc b + 20 else trunc b - 10)
                  (0, 255, 0)]\<rparr>, None))"
    by (rule disegna_oggetto_remapped [OF assms(1) _ _ _ _ assms(2)]) simp_all
  then show ?thesis
    using assms(3,4)
    by (simp add: trunc_neg_iff trunc_gt_iff trunc_small_neg trunc_just_above)
qed

text \<open>
  A frame of 160 by 120 under a model input of 320 by 320 (factors \<open>0.5\<close> and
  \<open>0.375\<close>): the box \<open>(- 1, - 1)\<close> to \<open>(321, 321)\<close> remaps to
  \<open>(- 0.5, - 0.375)\<close> to \<open>(160.5, 120.375)\<close> and is drawn as \<open>(0, 0)\<close> to
  \<open>(160, 120)\<close>.
\<close>

theorem bounds_check_truncates_toward_zero_witness:
  "disegna_oggetto cv2_ok etichette_esempio (Fin (1 / 2)) (Fin (3 / 8)) frame_120p
       (oggetto 1 (- 1) (- 1) 321 321) =
     (frame_120p\<lparr>disegni :=
        [Rectangle (0, 0) (160, 120) (0, 255, 0) 2,
         PutText (Etichetta_testo ''bicycle'' (Fin 75)) (0, 20) (0, 255, 0)]\<rparr>, None) \<and>
   trunc (- (1 / 2)) = 0 \<and> trunc (- (3 / 8)) = 0 \<and>
   trunc (321 / 2) = 160 \<and> trunc (963 / 8) = 120"
proof -
  have b: "BBox_scale (bbox (oggetto 1 (- 1) (- 1) 321 321)) (Fin (1 / 2)) (Fin (3 / 8)) =
      Inr \<lparr>xmin = Fin (- (1 / 2)), ymin = Fin (- (3 / 8)), xmax = Fin (321 / 2),
           ymax = Fin (963 / 8)\<rparr>"
    by code_simp
  have lab: "Etichetta_testo
        (dict_get etichette_esempio (obj_id (oggetto 1 (- 1) (- 1) 321 321)) ''Sconosciuto'')
        (py_round1 (float_mul (score (oggetto 1 (- 1) (- 1) 321 321)) (Fin 100))) =
      Etichetta_testo ''bicycle'' (Fin 75)"
    by code_simp
  have s: "shape0 frame_120p = 120" "shape1 frame_120p = 160" "disegni frame_120p = []"
    by (simp_all add: frame_120p_def)
  from bounds_check_truncates_toward_zero [OF b, of cv2_ok frame_120p etichette_esempio]
  show ?thesis
    by (simp add: cv2_ok_def s lab)
qed

section \<open>Exceptions inside \<open>disegna_risultati\<close>\<close>

lemma fl64_overflow:
  assumes "2 powi 1024 \<le> x"
  shows "fl64 x = PInf"
proof -
  have xpos: "0 < x"
    using assms by (rule less_le_trans [rotated]) simp
  have "(2::rat) powi 1024 < 2 powi (ilog2 x + 1)"
    using assms ilog2_bounds(2) [OF xpos] by (rule le_less_trans)
  then have "1024 < ilog2 x + 1" by (rule powi_less_imp)
  then have big: "1023 < ilog2 x" by simp
  have ax: "\<bar>x\<bar> = x" using xpos by simp
  show ?thesis
    unfolding fl64_def Let_def ax using xpos big by simp
qed

lemma float_of_int_overflow:
  assumes "2 ^ 1024 \<le> n"
  shows "float_of_int n = Inl OverflowError"
proof -
  have "(of_int (2 ^ 1024) :: rat) \<le> of_int n"
    using assms by (simp only: of_int_le_iff)
  then have "(2::rat) powi 1024 \<le> of_int n"
    by (simp only: power_int_numeral of_int_power of_int_numeral)
  then show ?thesis
    by (simp add: float_of_int_def fl64_overflow)
qed

lemma float_mul_int_overflow:
  "2 ^ 1024 \<le> n \<Longrightarrow> float_mul_int s n = Inl OverflowError"
  by (simp add: float_mul_int_def float_of_int_overflow)

lemma BBox_scale_xmax_overflow:
  assumes "\<bar>xmin b\<bar> < 2 ^ 53" "\<bar>ymin b\<bar> < 2 ^ 53" "2 ^ 1024 \<le> xmax b"
  shows "BBox_scale b (Fin s) (Fin t) = Inl OverflowError"
  by (simp add: BBox_scale_def float_mul_int_exact [OF assms(1)]
      float_mul_int_exact [OF assms(2)] float_mul_int_overflow [OF assms(3)])

lemma cv2_draw_appends:
  "\<exists>ds. fst (cv2_draw cv f d) = f\<lparr>disegni := disegni f @ ds\<rparr> \<and> length ds \<le> 1"
proof (cases "cv f d")
  case None
  then have "fst (cv2_draw cv f d) = f\<lparr>disegni := disegni f @ [d]\<rparr>"
    by (simp add: cv2_draw_def)
  then show ?thesis by (intro exI [of _ "[d]"]) simp
next
  case (Some e)
  then have "fst (cv2_draw cv f d) = f\<lparr>disegni := disegni f @ []\<rparr>"
    by (simp add: cv2_draw_def)
  then show ?thesis by (intro exI [of _ "[]"]) simp
qed

lemma disegna_oggetto_error_appends:
  assumes "disegna_oggetto cv etichette sx sy f obj = (f2, Some e)"
  shows "\<exists>ds. f2 = f\<lparr>disegni := disegni f @ ds\<rparr> \<and> length ds \<le> 1"
proof -
  have triv: "\<exists>ds. f = f\<lparr>disegni := disegni f @ ds\<rparr> \<and> length ds \<le> 1"
    by (intro exI [of _ "[]"]) simp
  have one: "\<exists>ds. f\<lparr>disegni := disegni f @ [d]\<rparr> = f\<lparr>disegni := disegni f @ ds\<rparr> \<and> length ds \<le> 1" for d
    by (intro exI [of _ "[d]"]) simp
  from assms show ?thesis
    using triv one
    by (auto simp: disegna_oggetto_def cv2_draw_def Let_def
        split: sum.splits if_splits option.splits prod.splits)
qed

lemma disegna_oggetto_appends:
  "\<exists>ds. fst (disegna_oggetto cv etichette sx sy f obj) = f\<lparr>disegni := disegni f @ ds\<rparr>"
proof -
  have triv: "\<exists>ds. f = f\<lparr>disegni := disegni f @ ds\<rparr>"
    by (intro exI [of _ "[]"]) simp
  have one: "\<exists>ds. f\<lparr>disegni := disegni f @ [d]\<rparr> = f\<lparr>disegni := disegni f @ ds\<rparr>" for d
    by (intro exI [of _ "[d]"]) simp
  have two: "\<exists>ds. f\<lparr>disegni := disegni f @ [d, d']\<rparr> = f\<lparr>disegni := disegni f @ ds\<rparr>" for d d'
    by (intro exI [of _ "[d, d']"]) simp
  show ?thesis
    using triv one two
    by (auto simp: disegna_oggetto_def cv2_draw_def Let_def
        split: sum.splits if_splits option.splits prod.splits)
qed

lemma ciclo_oggetti_appends:
  "\<exists>ds. fst (ciclo_oggetti cv etichette sx sy f oggetti) = f\<lparr>disegni := disegni f @ ds\<rparr>"
proof (induction oggetti arbitrary: f)
  case Nil
  show ?case by (intro exI [of _ "[]"]) simp
next
  case (Cons obj oggetti)
  obtain f1 r where step: "disegna_oggetto cv etichette sx sy f obj = (f1, r)"
    by (cases "disegna_oggetto cv etichette sx sy f obj")
  from disegna_oggetto_appends [of cv etichette sx sy f obj] step
  obtain ds1 where f1: "f1 = f\<lparr>disegni := disegni f @ ds1\<rparr>" by auto
  show ?case
  proof (cases r)
    case (Some e)
    with step f1 show ?thesis by auto
  next
    case None
    from Cons.IH [of f1] obtain ds2 where
      "fst (ciclo_oggetti cv etichette sx sy f1 oggetti) = f1\<lparr>disegni := disegni f1 @ ds2\<rparr>"
      by blast
    with step None f1 show ?thesis
      by (intro exI [of _ "ds1 @ ds2"]) simp
  qed
qed

lemma ciclo_oggetti_append:
  "ciclo_oggetti cv etichette sx sy f (xs @ ys) =
     (case ciclo_oggetti cv etichette sx sy f xs of
        (f1, None) \<Rightarrow> ciclo_oggetti cv etichette sx sy f1 ys
      | (f1, Some e) \<Rightarrow> (f1, Some e))"
  by (induction xs arbitrary: f) (auto split: prod.splits option.splits)

lemma esempio_ok:
  "disegna_oggetto cv2_ok etichette_esempio sx_720p sy_720p frame_720p (oggetto 0 20 10 60 50) =
     (frame_720p\<lparr>disegni :=
        [Rectangle (85, 24) (256, 120) (0, 255, 0) 2,
         PutText (Etichetta_testo ''person'' (Fin 75)) (85, 14) (0, 255, 0)]\<rparr>, None)"
  by code_simp

lemma esempio_enorme:
  assumes "2 ^ 1024 \<le> n"
  shows "disegna_oggetto cv2_ok etichette_esempio sx_720p sy_720p f (oggetto 1 0 0 n 10) =
     (f, Some OverflowError)"
proof -
  have "BBox_scale (bbox (oggetto 1 0 0 n 10)) sx_720p sy_720p = Inl OverflowError"
    unfolding sx_720p_def sy_720p_def
    using assms by (intro BBox_scale_xmax_overflow) (simp_all add: oggetto_def)
  then show ?thesis by (simp add: disegna_oggetto_def)
qed

text \<open>
  Claim C3, as amended.  The \<open>try\<close> encloses the whole \<open>for\<close> loop.  When the
  detections before \<open>obj\<close> were processed without an exception and the body raises
  \<open>e\<close> on \<open>obj\<close>, the handler prints \<open>e\<close> once and the function returns the frame as
  it is at that moment: what the earlier detections drew stays (plus the rectangle of
  \<open>obj\<close> when only its text failed), and \<open>obj\<close> and every detection after it in the
  list are skipped, whatever they are.  The function returns normally, so the loop of
  \<open>main\<close> goes on.
\<close>

theorem error_ends_the_detection_loop:
  assumes "ciclo_oggetti cv etichette sx sy f pre = (f1, None)"
    and "disegna_oggetto cv etichette sx sy f1 obj = (f2, Some e)"
  shows "disegna_risultati cv f (pre @ obj # post) etichette sx sy = (f2, [e]) \<and>
         (\<exists>ds. f2 = f1\<lparr>disegni := disegni f1 @ ds\<rparr> \<and> length ds \<le> 1)"
  using assms disegna_oggetto_error_appends [OF assms(2)]
  by (simp add: disegna_risultati_def ciclo_oggetti_append)

text \<open>
  Three detections, the second with an \<open>xmax\<close> too large to convert to float: the first
  is drawn, the error is printed, the third is not drawn.
\<close>

theorem error_ends_the_detection_loop_witness:
  "disegna_risultati cv2_ok frame_720p
      ([oggetto 0 20 10 60 50] @ oggetto 1 0 0 (2 ^ 1024) 10 # [oggetto 0 0 0 300 300])
      etichette_esempio sx_720p sy_720p =
     (frame_720p\<lparr>disegni :=
        [Rectangle (85, 24) (256, 120) (0, 255, 0) 2,
         PutText (Etichetta_testo ''person'' (Fin 75)) (85, 14) (0, 255, 0)]\<rparr>,
      [OverflowError])"
proof -
  have pre: "ciclo_oggetti cv2_ok etichette_esempio sx_720p sy_720p frame_720p
      [oggetto 0 20 10 60 50] =
     (frame_720p\<lparr>disegni :=
        [Rectangle (85, 24) (256, 120) (0, 255, 0) 2,
         PutText (Etichetta_testo ''person'' (Fin 75)) (85, 14) (0, 255, 0)]\<rparr>, None)"
    by (simp add: esempio_ok)
  have bad: "disegna_oggetto cv2_ok etichette_esempio sx_720p sy_720p
      (frame_720p\<lparr>disegni :=
        [Rectangle (85, 24) (256, 120) (0, 255, 0) 2,
         PutText (Etichetta_testo ''person'' (Fin 75)) (85, 14) (0, 255, 0)]\<rparr>)
      (oggetto 1 0 0 (2 ^ 1024) 10) =
     (frame_720p\<lparr>disegni :=
        [Rectangle (85, 24) (256, 120) (0, 255, 0) 2,
         PutText (Etichetta_testo ''person'' (Fin 75)) (85, 14) (0, 255, 0)]\<rparr>,
      Some OverflowError)"
    by (rule esempio_enorme) simp
  from error_ends_the_detection_loop [OF pre bad, of "[oggetto 0 0 0 300 300]"]
  show ?thesis by (simp only: simp_thms)
qed

text \<open>
  A detection that is drawn when it is alone in the list is not drawn when it follows
  one that raises.
\<close>

theorem later_detection_is_lost:
  "disegna_risultati cv2_ok frame_720p
      [oggetto 1 0 0 (2 ^ 1024) 10, oggetto 0 20 10 60 50]
      etichette_esempio sx_720p sy_720p =
     (frame_720p, [OverflowError]) \<and>
   disegna_risultati cv2_ok frame_720p [oggetto 0 20 10 60 50]
      etichette_esempio sx_720p sy_720p =
     (frame_720p\<lparr>disegni :=
        [Rectangle (85, 24) (256, 120) (0, 255, 0) 2,
         PutText (Etichetta_testo ''person'' (Fin 75)) (85, 14) (0, 255, 0)]\<rparr>, [])"
  using esempio_enorme [of "2 ^ 1024" frame_720p]
  by (simp add: disegna_risultati_def esempio_ok)

text \<open>
  Claim C10.  For every frame, detection list, label table, pair of factors and
  behaviour of the drawing calls, \<open>disegna_risultati\<close> returns: its result is the
  frame it was given with zero or more drawings added, namely the frame as the loop
  left it, also when the loop ended by an exception, which is then printed and not
  raised again.
\<close>

theorem disegna_risultati_returns_frame:
  "(\<exists>ds. fst (disegna_risultati cv f oggetti etichette sx sy) = f\<lparr>disegni := disegni f @ ds\<rparr>) \<and>
   fst (disegna_risultati cv f oggetti etichette sx sy) =
     fst (ciclo_oggetti cv etichette sx sy f oggetti) \<and>
   snd (disegna_risultati cv f oggetti etichette sx sy) =
     (case snd (ciclo_oggetti cv etichette sx sy f oggetti) of None \<Rightarrow> [] | Some e \<Rightarrow> [e])"
proof -
  have "fst (disegna_risultati cv f oggetti etichette sx sy) =
     fst (ciclo_oggetti cv etichette sx sy f oggetti)"
    by (simp add: disegna_risultati_def split: prod.splits option.splits)
  moreover have "snd (disegna_risultati cv f oggetti etichette sx sy) =
     (case snd (ciclo_oggetti cv etichette sx sy f oggetti) of None \<Rightarrow> [] | Some e \<Rightarrow> [e])"
    by (simp add: disegna_risultati_def split: prod.splits option.splits)
  ultimately show ?thesis
    using ciclo_oggetti_appends [of cv etichette sx sy f oggetti] by simp
qed

section \<open>The scale factors and the remapping in the loop body\<close>


lemma disegna_oggetto_finite:
  assumes "BBox_scale (bbox obj) sx sy =
      Inr \<lparr>xmin = Fin a, ymin = Fin b, xmax = Fin c, ymax = Fin d\<rparr>"
    and "\<And>g e. cv g e = None"
    and "0 \<le> shape0 f" "0 \<le> shape1 f"
  shows "disegna_oggetto cv etichette sx sy f obj =
     (if a \<le> - 1 \<or> b \<le> - 1 \<or> of_int (shape1 f) + 1 \<le> c \<or> of_int (shape0 f) + 1 \<le> d
      then (f, None)
      else (f\<lparr>disegni := disegni f @
               [Rectangle (trunc a, trunc b) (trunc c, trunc d) (0, 255, 0) 2,
                PutText (Etichetta_testo (dict_get etichette (obj_id obj) ''Sconosciuto'')
                           (py_round1 (float_mul (score obj) (Fin 100))))
                  (trunc a, if trunc b - 10 < 10 then trunc b + 20 else trunc b - 10)
                  (0, 255, 0)]\<rparr>, None))"
proof -
  have "disegna_oggetto cv etichette sx sy f obj =
     (if trunc a < 0 \<or> trunc b < 0 \<or> shape1 f < trunc c \<or> shape0 f < trunc d then (f, None)
      else (f\<lparr>disegni := disegni f @
               [Rectangle (trunc a, trunc b) (trunc c, trunc d) (0, 255, 0) 2,
                PutText (Etichetta_testo (dict_get etichette (obj_id obj) ''Sconosciuto'')
                           (py_round1 (float_mul (score obj) (Fin 100))))
                  (trunc a, if trunc b - 10 < 10 then trunc b + 20 else trunc b - 10)
                  (0, 255, 0)]\<rparr>, None))"
    by (rule disegna_oggetto_remapped [OF assms(1) _ _ _ _ assms(2)]) simp_all
  then show ?thesis
    using assms(3,4) by (simp add: trunc_neg_iff trunc_gt_iff)
qed








section \<open>The round trip of the full frame\<close>

text \<open>
  Claim C4, as amended.  On a native frame of \<open>N.w\<close> by \<open>N.h\<close>, with the factors of
  lines 393 and 394, the loop body remaps a detection whose box is the whole model
  input, \<open>(0, 0)\<close> to \<open>(M.w, M.h)\<close>, to \<open>(0, 0)\<close> to \<open>(x, y)\<close>, where \<open>x\<close> and \<open>y\<close> are
  the native width and height up to the two float roundings on the way (the division
  and the multiplication): a relative error of at most \<open>2 / 2 ^ 53 + 1 / 2 ^ 106\<close>.
  The corner \<open>(0, 0)\<close> is exact.  The body draws the rectangle from \<open>(0, 0)\<close> to the
  truncations of \<open>x\<close> and \<open>y\<close> unless one of them reaches the bound plus one; for a
  resolution below \<open>2 ^ 51\<close> it never does, and the pixel corner is the native width
  (height) or one less.
\<close>

theorem round_trip_within_rounding:
  fixes nw nh mw mh :: int
  assumes "0 < nw" "nw < 2 ^ 1022" "0 < nh" "nh < 2 ^ 1022"
    and "0 < mw" "mw < 2 ^ 53" "0 < mh" "mh < 2 ^ 53"
    and "bbox obj = \<lparr>xmin = 0, ymin = 0, xmax = mw, ymax = mh\<rparr>"
    and "shape1 f = nw" "shape0 f = nh"
    and "\<And>g e. cv g e = None"
  shows "\<exists>sx sy x y.
      scale_x nw (mw, mh) = Inr (Fin sx) \<and> scale_y nh (mw, mh) = Inr (Fin sy) \<and>
      BBox_scale (bbox obj) (Fin sx) (Fin sy) =
        Inr \<lparr>xmin = Fin 0, ymin = Fin 0, xmax = Fin x, ymax = Fin y\<rparr> \<and>
      \<bar>x - of_int nw\<bar> \<le> of_int nw * (2 / 2 ^ 53 + 1 / 2 ^ 106) \<and>
      \<bar>y - of_int nh\<bar> \<le> of_int nh * (2 / 2 ^ 53 + 1 / 2 ^ 106) \<and>
      disegna_oggetto cv etichette (Fin sx) (Fin sy) f obj =
        (if of_int nw + 1 \<le> x \<or> of_int nh + 1 \<le> y then (f, None)
         else (f\<lparr>disegni := disegni f @
                  [Rectangle (0, 0) (trunc x, trunc y) (0, 255, 0) 2,
                   PutText (Etichetta_testo (dict_get etichette (obj_id obj) ''Sconosciuto'')
                              (py_round1 (float_mul (score obj) (Fin 100))))
                     (0, 20) (0, 255, 0)]\<rparr>, None)) \<and>
      (nw < 2 ^ 51 \<longrightarrow> x < of_int nw + 1 \<and> (trunc x = nw - 1 \<or> trunc x = nw)) \<and>
      (nh < 2 ^ 51 \<longrightarrow> y < of_int nh + 1 \<and> (trunc y = nh - 1 \<or> trunc y = nh))"
proof -
  from round_trip_axis [OF assms(1,2,5,6)]
  obtain sx x where x: "int_truediv nw mw = Inr (Fin sx)"
      "float_mul_int (Fin sx) mw = Inr (Fin x)"
      "\<bar>x - of_int nw\<bar> \<le> of_int nw * (2 / 2 ^ 53 + 1 / 2 ^ 106)"
    by blast
  from round_trip_axis [OF assms(3,4,7,8)]
  obtain sy y where y: "int_truediv nh mh = Inr (Fin sy)"
      "float_mul_int (Fin sy) mh = Inr (Fin y)"
      "\<bar>y - of_int nh\<bar> \<le> of_int nh * (2 / 2 ^ 53 + 1 / 2 ^ 106)"
    by blast
  have bb: "BBox_scale (bbox obj) (Fin sx) (Fin sy) =
        Inr \<lparr>xmin = Fin 0, ymin = Fin 0, xmax = Fin x, ymax = Fin y\<rparr>"
    by (simp add: assms(9) BBox_scale_def float_mul_int_zero x(2) y(2))
  have sh: "0 \<le> shape0 f" "0 \<le> shape1 f"
    using assms(1,3,10,11) by simp_all
  have t0: "trunc 0 = 0" by (simp add: trunc_def)
  have dis: "disegna_oggetto cv etichette (Fin sx) (Fin sy) f obj =
        (if of_int nw + 1 \<le> x \<or> of_int nh + 1 \<le> y then (f, None)
         else (f\<lparr>disegni := disegni f @
                  [Rectangle (0, 0) (trunc x, trunc y) (0, 255, 0) 2,
                   PutText (Etichetta_testo (dict_get etichette (obj_id obj) ''Sconosciuto'')
                              (py_round1 (float_mul (score obj) (Fin 100))))
                     (0, 20) (0, 255, 0)]\<rparr>, None))"
    using disegna_oggetto_finite [where cv = cv and f = f and etichette = etichette,
      OF bb assms(12) sh]
    by (simp add: t0 assms(10,11))
  have small: "z < of_int n + 1 \<and> (trunc z = n - 1 \<or> trunc z = n)"
    if "0 < n" "n < 2 ^ 51" "\<bar>z - of_int n\<bar> \<le> of_int n * (2 / 2 ^ 53 + 1 / 2 ^ 106)"
    for n :: int and z :: rat
  proof -
    have "(of_int n :: rat) < of_int (2 ^ 51)"
      using that(2) by (simp only: of_int_less_iff)
    then have "(of_int n :: rat) * (2 / 2 ^ 53 + 1 / 2 ^ 106) < of_int (2 ^ 51) * (2 / 2 ^ 53 + 1 / 2 ^ 106)"
      by (intro mult_strict_right_mono) simp_all
    also have "\<dots> < 1" by simp
    finally have "\<bar>z - of_int n\<bar> < 1" using that(3) by linarith
    then have z: "of_int n - 1 < z" "z < of_int n + 1" by linarith+
    have "(1::rat) \<le> of_int n" using that(1) by simp
    with z(1) have "0 \<le> z" by linarith
    then have "trunc z = \<lfloor>z\<rfloor>" by (simp add: trunc_def)
    moreover have "n - 1 \<le> \<lfloor>z\<rfloor>" using z(1) by (simp add: le_floor_iff less_imp_le)
    moreover have "\<lfloor>z\<rfloor> \<le> n" using z(2) by (simp add: floor_le_iff)
    ultimately show ?thesis using z(2) by auto
  qed
  from x y bb dis small [OF assms(1) _ x(3)] small [OF assms(3) _ y(3)]
  show ?thesis
    unfolding scale_x_def scale_y_def fst_conv snd_conv by blast
qed

text \<open>
  Native 640 by 480 and model input 416 by 416: the width comes back exactly, the
  height within the bound, and the rectangle is drawn to the pixel row 479.
\<close>

theorem round_trip_within_rounding_witness:
  "scale_x 640 (416, 416) = Inr (Fin (6928614811339225 / 4503599627370496)) \<and>
   scale_y 480 (416, 416) = Inr (Fin (2598230554252209 / 2251799813685248)) \<and>
   \<bar>640 - 640\<bar> \<le> (640 :: rat) * (2 / 2 ^ 53 + 1 / 2 ^ 106) \<and>
   \<bar>8444249301319679 / 17592186044416 - 480\<bar> \<le> (480 :: rat) * (2 / 2 ^ 53 + 1 / 2 ^ 106) \<and>
   disegna_oggetto cv2_ok etichette_esempio
      (Fin (6928614811339225 / 4503599627370496)) (Fin (2598230554252209 / 2251799813685248))
      frame_480p (oggetto 1 0 0 416 416) =
     (frame_480p\<lparr>disegni :=
        [Rectangle (0, 0) (640, 479) (0, 255, 0) 2,
         PutText (Etichetta_testo ''bicycle'' (Fin 75)) (0, 20) (0, 255, 0)]\<rparr>, None)"
proof -
  have ex: "\<exists>sx sy x y.
      scale_x 640 (416, 416) = Inr (Fin sx) \<and> scale_y 480 (416, 416) = Inr (Fin sy) \<and>
      BBox_scale (bbox (oggetto 1 0 0 416 416)) (Fin sx) (Fin sy) =
        Inr \<lparr>xmin = Fin 0, ymin = Fin 0, xmax = Fin x, ymax = Fin y\<rparr> \<and>
      \<bar>x - of_int 640\<bar> \<le> of_int 640 * (2 / 2 ^ 53 + 1 / 2 ^ 106) \<and>
      \<bar>y - of_int 480\<bar> \<le> of_int 480 * (2 / 2 ^ 53 + 1 / 2 ^ 106) \<and>
      disegna_oggetto cv2_ok etichette_esempio (Fin sx) (Fin sy) frame_480p
          (oggetto 1 0 0 416 416) =
        (if of_int 640 + 1 \<le> x \<or> of_int 480 + 1 \<le> y then (frame_480p, None)
         else (frame_480p\<lparr>disegni := disegni frame_480p @
                  [Rectangle (0, 0) (trunc x, trunc y) (0, 255, 0) 2,
                   PutText (Etichetta_testo
                       (dict_get etichette_esempio (obj_id (oggetto 1 0 0 416 416)) ''Sconosciuto'')
                       (py_round1 (float_mul (score (oggetto 1 0 0 416 416)) (Fin 100))))
                     (0, 20) (0, 255, 0)]\<rparr>, None)) \<and>
      ((640 :: int) < 2 ^ 51 \<longrightarrow> x < of_int 640 + 1 \<and> (trunc x = 640 - 1 \<or> trunc x = 640)) \<and>
      ((480 :: int) < 2 ^ 51 \<longrightarrow> y < of_int 480 + 1 \<and> (trunc y = 480 - 1 \<or> trunc y = 480))"
    by (rule round_trip_within_rounding)
      (simp_all add: oggetto_def cv2_ok_def frame_480p_def)
  have sx: "scale_x 640 (416, 416) = Inr (Fin (6928614811339225 / 4503599627370496))"
    and sy: "scale_y 480 (416, 416) = Inr (Fin (2598230554252209 / 2251799813685248))"
    by code_simp+
  have bb: "BBox_scale (bbox (oggetto 1 0 0 416 416))
      (Fin (6928614811339225 / 4503599627370496)) (Fin (2598230554252209 / 2251799813685248)) =
     Inr \<lparr>xmin = Fin 0, ymin = Fin 0, xmax = Fin 640,
          ymax = Fin (8444249301319679 / 17592186044416)\<rparr>"
    by code_simp
  have t: "trunc 640 = 640" "trunc (8444249301319679 / 17592186044416) = 479"
    by (simp_all add: trunc_def floor_eq_iff)
  have lab: "Etichetta_testo
        (dict_get etichette_esempio (obj_id (oggetto 1 0 0 416 416)) ''Sconosciuto'')
        (py_round1 (float_mul (score (oggetto 1 0 0 416 416)) (Fin 100))) =
      Etichetta_testo ''bicycle'' (Fin 75)"
    by code_simp
  from ex obtain sx' sy' x y where
      h1: "scale_x 640 (416, 416) = Inr (Fin sx')" and h2: "scale_y 480 (416, 416) = Inr (Fin sy')"
      and hb: "BBox_scale (bbox (oggetto 1 0 0 416 416)) (Fin sx') (Fin sy') =
        Inr \<lparr>xmin = Fin 0, ymin = Fin 0, xmax = Fin x, ymax = Fin y\<rparr>"
      and ex: "\<bar>x - of_int 640\<bar> \<le> of_int 640 * (2 / 2 ^ 53 + 1 / 2 ^ 106)"
      and ey: "\<bar>y - of_int 480\<bar> \<le> of_int 480 * (2 / 2 ^ 53 + 1 / 2 ^ 106)"
      and dis: "disegna_oggetto cv2_ok etichette_esempio (Fin sx') (Fin sy') frame_480p
          (oggetto 1 0 0 416 416) =
        (if of_int 640 + 1 \<le> x \<or> of_int 480 + 1 \<le> y then (frame_480p, None)
         else (frame_480p\<lparr>disegni := disegni frame_480p @
                  [Rectangle (0, 0) (trunc x, trunc y) (0, 255, 0) 2,
                   PutText (Etichetta_testo
                       (dict_get etichette_esempio (obj_id (oggetto 1 0 0 416 416)) ''Sconosciuto'')
                       (py_round1 (float_mul (score (oggetto 1 0 0 416 416)) (Fin 100))))
                     (0, 20) (0, 255, 0)]\<rparr>, None))"
    by blast
  from h1 sx have sx': "sx' = 6928614811339225 / 4503599627370496"
    by (simp only: sum.inject pyfloat.inject)
  from h2 sy have sy': "sy' = 2598230554252209 / 2251799813685248"
    by (simp only: sum.inject pyfloat.inject)
  from hb have v: "x = 640" "y = 8444249301319679 / 17592186044416"
    unfolding sx' sy' bb by simp_all
  have "disegna_oggetto cv2_ok etichette_esempio
      (Fin (6928614811339225 / 4503599627370496)) (Fin (2598230554252209 / 2251799813685248))
      frame_480p (oggetto 1 0 0 416 416) =
     (frame_480p\<lparr>disegni :=
        [Rectangle (0, 0) (640, 479) (0, 255, 0) 2,
         PutText (Etichetta_testo ''bicycle'' (Fin 75)) (0, 20) (0, 255, 0)]\<rparr>, None)"
    using dis unfolding sx' sy' v t lab
    by (simp add: frame_480p_def)
  with sx sy ex ey show ?thesis
    unfolding v by simp
qed

text \<open>
  The round trip is not exact for every pair of resolutions: with a native frame of
  640 by 480 and a model input of 416 by 416 the height 416 comes back as
  \<open>479.99999999999994\<close>, and the loop body draws the full-frame box to the pixel
  row 479.
\<close>

theorem round_trip_not_exact:
  "scale_x 640 (416, 416) = Inr (Fin (6928614811339225 / 4503599627370496)) \<and>
   scale_y 480 (416, 416) = Inr (Fin (2598230554252209 / 2251799813685248)) \<and>
   BBox_scale \<lparr>xmin = 0, ymin = 0, xmax = 416, ymax = 416\<rparr>
      (Fin (6928614811339225 / 4503599627370496)) (Fin (2598230554252209 / 2251799813685248)) =
     Inr \<lparr>xmin = Fin 0, ymin = Fin 0, xmax = Fin 640,
          ymax = Fin (8444249301319679 / 17592186044416)\<rparr> \<and>
   (8444249301319679 / 17592186044416 :: rat) \<noteq> 480 \<and>
   disegna_oggetto cv2_ok etichette_esempio
      (Fin (6928614811339225 / 4503599627370496)) (Fin (2598230554252209 / 2251799813685248))
      frame_480p (oggetto 0 0 0 416 416) =
     (frame_480p\<lparr>disegni :=
        [Rectangle (0, 0) (640, 479) (0, 255, 0) 2,
         PutText (Etichetta_testo ''person'' (Fin 75)) (0, 20) (0, 255, 0)]\<rparr>, None)"
  by code_simp

section \<open>The documented scenario\<close>

text \<open>
  Claim C5.  Native 1280 by 720 and model input 300 by 300: \<open>scale_x\<close> is the float
  nearest to \<open>64 / 15\<close>, which is 4.2667 at four decimals, \<open>scale_y\<close> is the float
  nearest to 2.4.  With these factors the box \<open>(20, 10)\<close> to \<open>(60, 50)\<close> remaps to a
  float \<open>xmin\<close> that is 85.33 at two decimals and to exactly 24.0, 256.0 and 120.0, and
  the loop body, after \<open>int()\<close>, draws it at \<open>(85, 24)\<close> to \<open>(256, 120)\<close>.
\<close>

theorem scenario_1280_720:
  "scale_x 1280 (300, 300) = Inr (Fin (4803839602528529 / 1125899906842624)) \<and>
   scale_y 720 (300, 300) = Inr (Fin (5404319552844595 / 2251799813685248)) \<and>
   round_half_even (4803839602528529 / 1125899906842624 * 10 ^ 4) = 42667 \<and>
   round_half_even (5404319552844595 / 2251799813685248 * 10 ^ 4) = 24000 \<and>
   BBox_scale (bbox (oggetto 0 20 10 60 50))
      (Fin (4803839602528529 / 1125899906842624)) (Fin (5404319552844595 / 2251799813685248)) =
     Inr \<lparr>xmin = Fin (6004799503160661 / 70368744177664), ymin = Fin 24,
          xmax = Fin 256, ymax = Fin 120\<rparr> \<and>
   round_half_even (6004799503160661 / 70368744177664 * 10 ^ 2) = 8533 \<and>
   disegna_oggetto cv2_ok etichette_esempio
      (Fin (4803839602528529 / 1125899906842624)) (Fin (5404319552844595 / 2251799813685248))
      frame_720p (oggetto 0 20 10 60 50) =
     (frame_720p\<lparr>disegni :=
        [Rectangle (85, 24) (256, 120) (0, 255, 0) 2,
         PutText (Etichetta_testo ''person'' (Fin 75)) (85, 14) (0, 255, 0)]\<rparr>, None) \<and>
   trunc (6004799503160661 / 70368744177664) = 85 \<and> trunc 24 = 24 \<and>
   trunc 256 = 256 \<and> trunc 120 = 120"
  by code_simp

section \<open>Label lookup\<close>

lemma foldl_enumerate_from:
  "foldl (\<lambda>etichette (i, line). etichette(i \<mapsto> g line)) m0 (enumerate_from k xs) j =
     (if k \<le> j \<and> j < k + int (length xs) then Some (g (xs ! nat (j - k))) else m0 j)"
proof (induction xs arbitrary: k m0)
  case Nil
  show ?case by auto
next
  case (Cons x xs)
  have "foldl (\<lambda>etichette (i, line). etichette(i \<mapsto> g line)) m0 (enumerate_from k (x # xs)) j =
      foldl (\<lambda>etichette (i, line). etichette(i \<mapsto> g line)) (m0(k \<mapsto> g x))
        (enumerate_from (k + 1) xs) j"
    by (simp del: fun_upd_apply)
  also have "\<dots> = (if k + 1 \<le> j \<and> j < k + 1 + int (length xs)
      then Some (g (xs ! nat (j - (k + 1)))) else (m0(k \<mapsto> g x)) j)"
    by (rule Cons.IH)
  also have "\<dots> = (if k \<le> j \<and> j < k + int (length (x # xs))
      then Some (g ((x # xs) ! nat (j - k))) else m0 j)"
  proof (cases "k + 1 \<le> j")
    case True
    then have "nat (j - k) = Suc (nat (j - (k + 1)))" by simp
    with True show ?thesis by simp
  next
    case False
    then show ?thesis by auto
  qed
  finally show ?case .
qed

lemma carica_etichette_lookup:
  assumes "carica_etichette strip (Some lines) = Some etichette"
  shows "etichette i =
     (if 0 \<le> i \<and> i < int (length lines) then Some (strip (lines ! nat i)) else None)"
  using assms foldl_enumerate_from [of strip Map.empty 0 lines i]
  by (auto simp: carica_etichette_def)

lemma disegna_oggetto_unmapped:
  assumes "etichette (obj_id obj) = None"
  shows "disegna_oggetto cv etichette sx sy f obj =
         disegna_oggetto cv (etichette(obj_id obj \<mapsto> ''Sconosciuto'')) sx sy f obj"
proof -
  have "dict_get (etichette(obj_id obj \<mapsto> ''Sconosciuto'')) (obj_id obj) ''Sconosciuto'' =
      dict_get etichette (obj_id obj) ''Sconosciuto''"
    using assms by (simp add: dict_get_def)
  then show ?thesis
    by (simp only: disegna_oggetto_def)
qed

text \<open>
  Claim C7.  In the table that \<open>carica_etichette\<close> loads from a file of \<open>n\<close> lines the
  keys are \<open>0\<close> to \<open>n - 1\<close>.  For a detection whose class index is outside that range
  the lookup of line 166, \<open>etichette.get(obj.id, 'Sconosciuto')\<close>, finds no entry and
  returns the fixed placeholder.  The loop body then behaves, for every frame, factors
  and behaviour of the drawing calls, exactly as it does with a table that maps this
  index to the placeholder, so nothing it raises is due to the missing entry; and when
  the box is in bounds and the drawing calls do not raise, it draws the rectangle with
  the placeholder as the class name.
\<close>

theorem label_lookup_falls_back:
  assumes "carica_etichette strip (Some lines) = Some etichette"
    and "obj_id obj < 0 \<or> int (length lines) \<le> obj_id obj"
  shows "etichette (obj_id obj) = None \<and>
     dict_get etichette (obj_id obj) ''Sconosciuto'' = ''Sconosciuto'' \<and>
     disegna_oggetto cv etichette sx sy f obj =
       disegna_oggetto cv (etichette(obj_id obj \<mapsto> ''Sconosciuto'')) sx sy f obj \<and>
     (BBox_scale (bbox obj) sx sy = Inr bs \<and>
      py_int (xmin bs) = Inr x0 \<and> py_int (ymin bs) = Inr y0 \<and>
      py_int (xmax bs) = Inr x1 \<and> py_int (ymax bs) = Inr y1 \<and>
      0 \<le> x0 \<and> 0 \<le> y0 \<and> x1 \<le> shape1 f \<and> y1 \<le> shape0 f \<and>
      (\<forall>g d. cv g d = None) \<longrightarrow>
      disegna_oggetto cv etichette sx sy f obj =
        (f\<lparr>disegni := disegni f @
             [Rectangle (x0, y0) (x1, y1) (0, 255, 0) 2,
              PutText (Etichetta_testo ''Sconosciuto''
                         (py_round1 (float_mul (score obj) (Fin 100))))
                (x0, if y0 - 10 < 10 then y0 + 20 else y0 - 10) (0, 255, 0)]\<rparr>, None))"
proof -
  have none: "etichette (obj_id obj) = None"
    using assms(2) carica_etichette_lookup [OF assms(1), of "obj_id obj"] by auto
  then have dg: "dict_get etichette (obj_id obj) ''Sconosciuto'' = ''Sconosciuto''"
    by (simp add: dict_get_def)
  have drawn: "disegna_oggetto cv etichette sx sy f obj =
        (f\<lparr>disegni := disegni f @
             [Rectangle (x0, y0) (x1, y1) (0, 255, 0) 2,
              PutText (Etichetta_testo ''Sconosciuto''
                         (py_round1 (float_mul (score obj) (Fin 100))))
                (x0, if y0 - 10 < 10 then y0 + 20 else y0 - 10) (0, 255, 0)]\<rparr>, None)"
    if "BBox_scale (bbox obj) sx sy = Inr bs"
      "py_int (xmin bs) = Inr x0" "py_int (ymin bs) = Inr y0"
      "py_int (xmax bs) = Inr x1" "py_int (ymax bs) = Inr y1"
      "0 \<le> x0" "0 \<le> y0" "x1 \<le> shape1 f" "y1 \<le> shape0 f"
      "\<forall>g d. cv g d = None"
  proof -
    from that(10) have cv: "\<And>g d. cv g d = None" by simp
    show ?thesis
      using that(6-9)
      by (simp add: disegna_oggetto_remapped [OF that(1-5) cv] dg)
  qed
  note same = disegna_oggetto_unmapped [where etichette = etichette and obj = obj
      and cv = cv and sx = sx and sy = sy and f = f, OF none]
  from none dg same drawn show ?thesis
    by blast
qed

text \<open>
  A table of two lines, loaded with a \<open>strip\<close> that has nothing to remove, and a
  detection of class 7: drawn, labelled \<open>Sconosciuto\<close>.
\<close>

theorem label_lookup_falls_back_witness:
  "dict_get (the (carica_etichette id (Some [''person'', ''bicycle''])))
      (obj_id (oggetto 7 20 10 60 50)) ''Sconosciuto'' = ''Sconosciuto'' \<and>
   disegna_oggetto cv2_ok (the (carica_etichette id (Some [''person'', ''bicycle''])))
      sx_720p sy_720p frame_720p (oggetto 7 20 10 60 50) =
     (frame_720p\<lparr>disegni :=
        [Rectangle (85, 24) (256, 120) (0, 255, 0) 2,
         PutText (Etichetta_testo ''Sconosciuto'' (Fin 75)) (85, 14) (0, 255, 0)]\<rparr>, None)"
proof -
  have l: "carica_etichette id (Some [''person'', ''bicycle'']) =
      Some (the (carica_etichette id (Some [''person'', ''bicycle''])))"
    by (simp add: carica_etichette_def)
  have r: "obj_id (oggetto 7 20 10 60 50) < 0 \<or>
      int (length [''person'', ''bicycle'']) \<le> obj_id (oggetto 7 20 10 60 50)"
    by (simp add: oggetto_def)
  have bb: "BBox_scale (bbox (oggetto 7 20 10 60 50)) sx_720p sy_720p =
      Inr \<lparr>xmin = Fin (6004799503160661 / 70368744177664), ymin = Fin 24,
           xmax = Fin 256, ymax = Fin 120\<rparr>"
    by code_simp
  have t: "trunc (6004799503160661 / 70368744177664) = 85" "trunc 24 = 24" "trunc 256 = 256"
      "trunc 120 = 120"
    by (simp_all add: trunc_def floor_eq_iff)
  have sc: "py_round1 (float_mul (score (oggetto 7 20 10 60 50)) (Fin 100)) = Fin 75"
    by code_simp
  note th = label_lookup_falls_back [OF l r, of cv2_ok sx_720p sy_720p frame_720p
      "\<lparr>xmin = Fin (6004799503160661 / 70368744177664), ymin = Fin 24,
        xmax = Fin 256, ymax = Fin 120\<rparr>" 85 24 256 120]
  note look = th [THEN conjunct2, THEN conjunct1]
  note draw = th [THEN conjunct2, THEN conjunct2, THEN conjunct2]
  have "disegna_oggetto cv2_ok (the (carica_etichette id (Some [''person'', ''bicycle''])))
      sx_720p sy_720p frame_720p (oggetto 7 20 10 60 50) =
     (frame_720p\<lparr>disegni :=
        [Rectangle (85, 24) (256, 120) (0, 255, 0) 2,
         PutText (Etichetta_testo ''Sconosciuto'' (Fin 75)) (85, 14) (0, 255, 0)]\<rparr>, None)"
    using draw by (simp add: bb t sc cv2_ok_def) (simp add: frame_720p_def)
  with look show ?thesis by (simp only: simp_thms)
qed

section \<open>The capability prober\<close>

lemma echi_requests:
  "(r, e) \<in> set (echi cap_get cap_set d cands cap) \<Longrightarrow> r \<noteq> d \<and> r \<in> set cands"
proof (induction cands arbitrary: cap)
  case Nil
  then show ?case by simp
next
  case (Cons c cands)
  obtain w h where c: "c = (w, h)" by (cases c)
  from Cons.prems Cons.IH show ?case
    by (auto simp: c Let_def split: if_splits)
qed

lemma map_fst_echi:
  "map fst (echi cap_get cap_set d cands cap) = removeAll d cands"
proof (induction cands arbitrary: cap)
  case Nil
  show ?case by simp
next
  case (Cons c cands)
  obtain w h where c: "c = (w, h)" by (cases c)
  from Cons.IH show ?case by (auto simp: c Let_def)
qed

lemma testa_risoluzioni_result:
  "\<exists>ys. snd (testa_risoluzioni cap_get cap_set d cands cap supp) = supp @ ys \<and>
        (distinct supp \<longrightarrow> distinct (supp @ ys)) \<and>
        set (supp @ ys) = set supp \<union> {r. (r, r) \<in> set (echi cap_get cap_set d cands cap)}"
proof (induction cands arbitrary: cap supp)
  case Nil
  show ?case by (intro exI [of _ "[]"]) simp
next
  case (Cons c cands)
  obtain w h where c: "c = (w, h)" by (cases c)
  define cap2 where
    "cap2 = cap_set (cap_set cap CAP_PROP_FRAME_WIDTH w) CAP_PROP_FRAME_HEIGHT h"
  define echo where
    "echo = (trunc (cap_get cap2 CAP_PROP_FRAME_WIDTH), trunc (cap_get cap2 CAP_PROP_FRAME_HEIGHT))"
  show ?case
  proof (cases "(w, h) = d")
    case True
    from Cons.IH [of cap supp] show ?thesis
      unfolding c True [symmetric] by simp
  next
    case nd: False
    have ech: "echi cap_get cap_set d (c # cands) cap =
        ((w, h), echo) # echi cap_get cap_set d cands cap2"
      using nd by (simp add: c Let_def cap2_def echo_def)
    show ?thesis
    proof (cases "echo = (w, h) \<and> (w, h) \<notin> set supp")
      case True
      then have step: "testa_risoluzioni cap_get cap_set d (c # cands) cap supp =
          testa_risoluzioni cap_get cap_set d cands cap2 (supp @ [(w, h)])"
        using nd by (auto simp: c Let_def cap2_def echo_def)
      from Cons.IH [of cap2 "supp @ [(w, h)]"] obtain ys where ys:
        "snd (testa_risoluzioni cap_get cap_set d cands cap2 (supp @ [(w, h)])) =
           (supp @ [(w, h)]) @ ys"
        "distinct (supp @ [(w, h)]) \<longrightarrow> distinct ((supp @ [(w, h)]) @ ys)"
        "set ((supp @ [(w, h)]) @ ys) =
           set (supp @ [(w, h)]) \<union> {r. (r, r) \<in> set (echi cap_get cap_set d cands cap2)}"
        by blast
      show ?thesis
      proof (intro exI [of _ "(w, h) # ys"] conjI)
        show "snd (testa_risoluzioni cap_get cap_set d (c # cands) cap supp) = supp @ (w, h) # ys"
          using ys(1) by (simp add: step)
        show "distinct supp \<longrightarrow> distinct (supp @ (w, h) # ys)"
          using ys(2) True by simp
        show "set (supp @ (w, h) # ys) =
            set supp \<union> {r. (r, r) \<in> set (echi cap_get cap_set d (c # cands) cap)}"
          using ys(3) True by (auto simp: ech)
      qed
    next
      case False
      then have step: "testa_risoluzioni cap_get cap_set d (c # cands) cap supp =
          testa_risoluzioni cap_get cap_set d cands cap2 supp"
        using nd by (auto simp: c Let_def cap2_def echo_def)
      from Cons.IH [of cap2 supp] obtain ys where ys:
        "snd (testa_risoluzioni cap_get cap_set d cands cap2 supp) = supp @ ys"
        "distinct supp \<longrightarrow> distinct (supp @ ys)"
        "set (supp @ ys) = set supp \<union> {r. (r, r) \<in> set (echi cap_get cap_set d cands cap2)}"
        by blast
      show ?thesis
      proof (intro exI [of _ ys] conjI)
        show "snd (testa_risoluzioni cap_get cap_set d (c # cands) cap supp) = supp @ ys"
          using ys(1) by (simp add: step)
        show "distinct supp \<longrightarrow> distinct (supp @ ys)"
          by (rule ys(2))
        show "set (supp @ ys) =
            set supp \<union> {r. (r, r) \<in> set (echi cap_get cap_set d (c # cands) cap)}"
          using ys(3) False by (auto simp: ech)
      qed
    qed
  qed
qed

text \<open>
  Claim C6, as amended.  For every capture device, whatever it does with a request,
  the list that \<open>trova_risoluzioni_supportate\<close> returns is not empty, starts with the
  default resolution read at the beginning, and has no duplicates; its other elements
  are exactly the resolutions that the device read back identically when the loop
  requested them, and the loop requests every candidate other than the default, in
  order.  Before returning the function requests the default width and then the
  default height again: the device is left in the state these two requests lead to.
\<close>

theorem prober_contract:
  assumes "trova_risoluzioni_supportate cap_get cap_set cap = (rs, cap')"
  shows "rs \<noteq> [] \<and>
     hd rs = (trunc (cap_get cap CAP_PROP_FRAME_WIDTH), trunc (cap_get cap CAP_PROP_FRAME_HEIGHT)) \<and>
     distinct rs \<and>
     set (tl rs) = {r. (r, r) \<in> set (echi cap_get cap_set (hd rs) risoluzioni_da_testare cap)} \<and>
     map fst (echi cap_get cap_set (hd rs) risoluzioni_da_testare cap) =
       removeAll (hd rs) risoluzioni_da_testare \<and>
     cap' = cap_set
        (cap_set (fst (testa_risoluzioni cap_get cap_set (hd rs) risoluzioni_da_testare cap [hd rs]))
           CAP_PROP_FRAME_WIDTH (fst (hd rs)))
        CAP_PROP_FRAME_HEIGHT (snd (hd rs))"
proof -
  define d where
    "d = (trunc (cap_get cap CAP_PROP_FRAME_WIDTH), trunc (cap_get cap CAP_PROP_FRAME_HEIGHT))"
  define t where "t = testa_risoluzioni cap_get cap_set d risoluzioni_da_testare cap [d]"
  from assms have rs: "rs = snd t"
    and cap': "cap' = cap_set (cap_set (fst t) CAP_PROP_FRAME_WIDTH (fst d))
        CAP_PROP_FRAME_HEIGHT (snd d)"
    by (auto simp: trova_risoluzioni_supportate_def Let_def d_def t_def split: prod.splits)
  from testa_risoluzioni_result [of cap_get cap_set d risoluzioni_da_testare cap "[d]"]
  obtain ys where ys: "rs = [d] @ ys" "distinct ([d] @ ys)"
    "set ([d] @ ys) = set [d] \<union> {r. (r, r) \<in> set (echi cap_get cap_set d risoluzioni_da_testare cap)}"
    unfolding rs t_def by auto
  have hd: "hd rs = d" and ne: "rs \<noteq> []" and tl: "tl rs = ys"
    using ys(1) by simp_all
  have "d \<notin> set ys" using ys(2) by simp
  moreover have "d \<notin> {r. (r, r) \<in> set (echi cap_get cap_set d risoluzioni_da_testare cap)}"
    using echi_requests [of d d cap_get cap_set d risoluzioni_da_testare cap] by auto
  ultimately have "set ys = {r. (r, r) \<in> set (echi cap_get cap_set d risoluzioni_da_testare cap)}"
    using ys(3) by auto
  with hd ne tl ys(1,2) cap' show ?thesis
    by (simp add: map_fst_echi d_def [symmetric] t_def)
qed

text \<open>A device that applies every request: all five candidates, and the default restored.\<close>

theorem prober_contract_witness:
  "trova_risoluzioni_supportate cam_get cam_set_any (640, 480) =
     ([(640, 480), (800, 600), (1024, 768), (1280, 720), (1920, 1080)], (640, 480)) \<and>
   echi cam_get cam_set_any (640, 480) risoluzioni_da_testare (640, 480) =
     [((800, 600), (800, 600)), ((1024, 768), (1024, 768)), ((1280, 720), (1280, 720)),
      ((1920, 1080), (1920, 1080))]"
proof -
  have run: "trova_risoluzioni_supportate cam_get cam_set_any (640, 480) =
     ([(640, 480), (800, 600), (1024, 768), (1280, 720), (1920, 1080)], (640, 480))"
    by code_simp
  have e: "echi cam_get cam_set_any (640, 480) risoluzioni_da_testare (640, 480) =
     [((800, 600), (800, 600)), ((1024, 768), (1024, 768)), ((1280, 720), (1280, 720)),
      ((1920, 1080), (1920, 1080))]"
    by code_simp
  from prober_contract [OF run] run e show ?thesis by simp
qed

text \<open>
  A device does not have to end in its default resolution.  With the modes 640 by 480
  (the default), 800 by 480 and 800 by 600, and a driver that refuses a request
  leading outside the table, the probe of 800 by 600 succeeds; on the way back the
  width 640 is refused at height 600 and the height 480 is accepted, which leaves the
  device at 800 by 480.
\<close>

theorem prober_leaves_device_off_default:
  "trova_risoluzioni_supportate cam_get
      (cam_set_modes [(640, 480), (800, 480), (800, 600)]) (640, 480) =
     ([(640, 480), (800, 600)], (800, 480))"
  by code_simp

section \<open>The debug toggle\<close>









end
